theory Spec2Isabelle
  imports Main "HOL-Library.Word"
begin

unbundle bit_operations_syntax

section \<open>Bytes, errors and the byte stream\<close>

text \<open>
  The module \<^verbatim>\<open>libs/common/bitcoin/liquid/psetview.py\<close> reads a PSET from a
  seekable binary stream. Bytes are 8-bit words, a \<^verbatim>\<open>bytes\<close> value is a list of
  them, Python integers are \<^typ>\<open>int\<close>, and the exceptions the module can raise are the
  constructors of \<open>error\<close>; a function that can raise returns \<open>error + 'a\<close>.
\<close>

type_synonym byte = "8 word"

datatype error =
    PSBTError string
  | AssertionError
  | NotImplementedError
  | OverflowError
  | TypeError
  | ValueError string
  | StreamError string

definition bind_err :: "error + 'a \<Rightarrow> ('a \<Rightarrow> error + 'b) \<Rightarrow> error + 'b" where
  "bind_err m f = (case m of Inl e \<Rightarrow> Inl e | Inr x \<Rightarrow> f x)"

text \<open>
  The stream is a Python binary stream (\<^verbatim>\<open>io.BytesIO\<close>, or a file opened for
  reading): \<^verbatim>\<open>read(n)\<close> returns the at most \<open>n\<close> bytes that are left and advances
  by what it returned (a short read is a short result, not an exception);
  \<^verbatim>\<open>seek(n, 1)\<close> with \<open>n \<ge> 0\<close> moves the position forward by \<open>n\<close>, also beyond
  the end of the data; \<^verbatim>\<open>seek(n)\<close> sets the position.
\<close>

record stream =
  buf :: "byte list"
  pos :: nat

definition read :: "nat \<Rightarrow> stream \<Rightarrow> byte list \<times> stream" where
  "read n s = (let bs = take n (drop (pos s) (buf s)) in (bs, s\<lparr>pos := pos s + length bs\<rparr>))"

definition seek_cur :: "nat \<Rightarrow> stream \<Rightarrow> stream" where
  "seek_cur n s = s\<lparr>pos := pos s + n\<rparr>"

definition seek_set :: "nat \<Rightarrow> stream \<Rightarrow> stream" where
  "seek_set n s = s\<lparr>pos := n\<rparr>"

text \<open>\<^verbatim>\<open>int.from_bytes(bs, "little")\<close>, for a byte string of any length.\<close>

fun from_bytes_le :: "byte list \<Rightarrow> int" where
  "from_bytes_le [] = 0"
| "from_bytes_le (b # bs) = uint b + 256 * from_bytes_le bs"

section \<open>The commitment codec\<close>

text \<open>
  \<^verbatim>\<open>
  def skip_commitment(stream):
      c = stream.read(1)
      assert len(c) == 1
      if c == b"\x00": # None
          return 1
      if c == b"\x01": # unconfidential
          r = stream.seek(8, 1)
          return 9
      # confidential
      r = stream.seek(32, 1)
      return 33
  \<close>
\<close>

definition skip_commitment :: "stream \<Rightarrow> error + (nat \<times> stream)" where
  "skip_commitment s =
     (let (c, s1) = read 1 s in
      if length c \<noteq> 1 then Inl AssertionError
      else if c = [0x00] then Inr (1, s1)
      else if c = [0x01] then Inr (9, seek_cur 8 s1)
      else Inr (33, seek_cur 32 s1))"

text \<open>The number of bytes a commitment with tag byte \<open>t\<close> occupies, tag included.\<close>

definition commitment_len :: "byte \<Rightarrow> nat" where
  "commitment_len t = (if t = 0x00 then 1 else if t = 0x01 then 9 else 33)"

section \<open>The transaction stream view: skipping one input\<close>

text \<open>
  \<^verbatim>\<open>
  def _skip_input(self):
      off = 32 + 4 + 5
      self.stream.seek(32, 1) # txid
      vout = int.from_bytes(self.stream.read(4), "little")
      self.stream.seek(5, 1) # scriptsig, sequence
      is_pegin = False
      if vout != 0xFFFFFFFF:
          is_pegin = vout & (1 << 30) != 0
          has_issuance = vout & (1 << 31) != 0
          if has_issuance:
              self.stream.seek(32+32, 1) # nonce, entropy
              off += 64
              off += skip_commitment(self.stream) # amount commitment
              off += skip_commitment(self.stream) # token commitment
      return off
  \<close>
  The method touches only \<^verbatim>\<open>self.stream\<close>, so the model takes and returns the stream.
  (An Isabelle name cannot start with an underscore: \<^verbatim>\<open>_skip_input\<close> is \<open>skip_input\<close>.)
\<close>

definition skip_input :: "stream \<Rightarrow> error + (nat \<times> stream)" where
  "skip_input s =
     (let off = 32 + 4 + 5;
          s1 = seek_cur 32 s;
          (raw, s2) = read 4 s1;
          vout = from_bytes_le raw;
          s3 = seek_cur 5 s2
      in if vout \<noteq> 0xFFFFFFFF then
           (let is_pegin = (vout AND push_bit 30 1 \<noteq> 0);
                has_issuance = (vout AND push_bit 31 1 \<noteq> 0)
            in if has_issuance then
                 (let s4 = seek_cur (32 + 32) s3;
                      off1 = off + 64
                  in bind_err (skip_commitment s4) (\<lambda>(n1, s5).
                     bind_err (skip_commitment s5) (\<lambda>(n2, s6).
                     Inr (off1 + n1 + n2, s6))))
               else Inr (off, s3))
         else Inr (off, s3))"

text \<open>The raw 4-byte \<open>vout\<close> field of the input that starts at the stream position.\<close>

definition raw_vout :: "stream \<Rightarrow> int" where
  "raw_vout s = from_bytes_le (take 4 (drop (pos s + 32) (buf s)))"

section \<open>Collaborators that are not part of the module\<close>

text \<open>
  \<^verbatim>\<open>int.to_bytes(n, "little")\<close> and \<^verbatim>\<open>int.to_bytes(n, "big")\<close>: Python raises
  \<^verbatim>\<open>OverflowError\<close> for a negative integer and for one that does not fit \<open>n\<close> bytes.
\<close>

fun le_bytes :: "nat \<Rightarrow> int \<Rightarrow> byte list" where
  "le_bytes 0 v = []"
| "le_bytes (Suc n) v = word_of_int (v mod 256) # le_bytes n (v div 256)"

definition to_bytes_le :: "int \<Rightarrow> nat \<Rightarrow> error + byte list" where
  "to_bytes_le v n = (if v < 0 \<or> 256 ^ n \<le> v then Inl OverflowError else Inr (le_bytes n v))"

definition to_bytes_be :: "int \<Rightarrow> nat \<Rightarrow> error + byte list" where
  "to_bytes_be v n = (if v < 0 \<or> 256 ^ n \<le> v then Inl OverflowError else Inr (rev (le_bytes n v)))"


text \<open>
  \<^verbatim>\<open>LTransactionInput\<close> with the attributes the module reads, and a transaction output
  (\<^verbatim>\<open>LTransactionOutput\<close>, \<^verbatim>\<open>BlindedLTransactionOutput\<close>) as the byte strings its
  serialisers return: \<^verbatim>\<open>out.serialize()\<close>, \<^verbatim>\<open>out.witness.serialize()\<close>,
  \<^verbatim>\<open>out.witness.range_proof.serialize()\<close> and
  \<^verbatim>\<open>out.witness.surjection_proof.serialize()\<close>. An output scope has the two attributes
  \<^verbatim>\<open>vout\<close> and \<^verbatim>\<open>blinded_vout\<close>.
\<close>

record ltx_input =
  txid :: "byte list"
  vout :: int
  sequence :: int

record ltx_output =
  serialize :: "byte list"
  witness_serialize :: "byte list"
  range_proof_serialize :: "byte list"
  surjection_proof_serialize :: "byte list"

record output_scope =
  scope_vout :: ltx_output
  scope_blinded_vout :: ltx_output

text \<open>
  The module imports everything else (\<^verbatim>\<open>from ..psbtview import *\<close>,
  \<^verbatim>\<open>from .pset import *\<close>, \<^verbatim>\<open>hashlib\<close>). What it calls there is a parameter of the
  model, one field each:
  \<^item> \<open>sha256 m\<close> is \<^verbatim>\<open>hashlib.sha256(m).digest()\<close>;
  \<^item> \<open>compact_read_from\<close>, \<open>compact_to_bytes\<close> are \<^verbatim>\<open>compact.read_from\<close>,
    \<^verbatim>\<open>compact.to_bytes\<close>;
  \<^item> \<open>ltxin_read_from\<close>, \<open>ltxout_read_from\<close> are \<^verbatim>\<open>LTransactionInput.read_from\<close>,
    \<^verbatim>\<open>LTransactionOutput.read_from\<close>;
  \<^item> \<open>SIGHASH_ALL\<close>, \<open>SIGHASH_NONE\<close>, \<open>SIGHASH_SINGLE\<close>, \<open>LSIGHASH_RANGEPROOF\<close> are the
    flag constants and \<open>LSIGHASH_check\<close> is \<^verbatim>\<open>LSIGHASH.check\<close>, returning the base
    type, the ANYONECANPAY bit and the RANGEPROOF bit;
  \<^item> \<open>scope_value i key\<close> is \<^verbatim>\<open>self.seek_to_scope(i)\<close> followed by
    \<^verbatim>\<open>self._get_value(key, from_current=True)\<close>, \<open>None\<close> when the scope has no such field;
  \<^item> \<open>read_output_scope i\<close> builds the record of output \<open>i\<close>;
  \<^item> \<open>hash_prevouts\<close>, \<open>hash_sequence\<close> are the results of the inherited
    \<^verbatim>\<open>self.hash_prevouts()\<close>, \<^verbatim>\<open>self.hash_sequence()\<close>;
  \<^item> \<open>script_serialize\<close> is \<^verbatim>\<open>script_pubkey.serialize()\<close> of a script given by its bytes.
  Every accessor of the inherited view seeks before it reads, so what these return is a
  function of the document and not of the stream position.
\<close>

record collab =
  sha256 :: "byte list \<Rightarrow> byte list"
  compact_read_from :: "stream \<Rightarrow> error + (nat \<times> stream)"
  compact_to_bytes :: "nat \<Rightarrow> byte list"
  ltxin_read_from :: "stream \<Rightarrow> error + (ltx_input \<times> stream)"
  ltxout_read_from :: "stream \<Rightarrow> error + (ltx_output \<times> stream)"
  SIGHASH_ALL :: int
  SIGHASH_NONE :: int
  SIGHASH_SINGLE :: int
  LSIGHASH_RANGEPROOF :: int
  LSIGHASH_check :: "int \<Rightarrow> error + (int \<times> bool \<times> bool)"
  scope_value :: "nat \<Rightarrow> byte list \<Rightarrow> error + byte list option"
  read_output_scope :: "nat \<Rightarrow> error + output_scope"
  hash_prevouts :: "error + byte list"
  hash_sequence :: "error + byte list"
  script_serialize :: "byte list \<Rightarrow> byte list"

section \<open>The transaction stream view\<close>

text \<open>
  \<^verbatim>\<open>GlobalLTransactionView\<close>: the stream, the inherited \<^verbatim>\<open>num_vin\<close> and
  \<^verbatim>\<open>vin0_offset\<close>, and the three memoised values \<^verbatim>\<open>_num_vout_offset\<close>,
  \<^verbatim>\<open>_num_vout\<close>, \<^verbatim>\<open>_vout0_offset\<close> (\<open>None\<close> until computed).
  A method returns its result together with the view it leaves behind; an exception
  abandons the call. Both classes have methods \<^verbatim>\<open>vin\<close> and \<^verbatim>\<open>vout\<close>: those of
  this class are \<open>tx_vin\<close> and \<open>tx_vout\<close>, those of \<^verbatim>\<open>PSETView\<close> are
  \<open>pset_vin\<close> and \<open>pset_vout\<close>.
\<close>

record tx_view =
  tx_stream :: stream
  num_vin :: nat
  vin0_offset :: nat
  cache_num_vout_offset :: "nat option"
  cache_num_vout :: "nat option"
  cache_vout0_offset :: "nat option"

text \<open>\<^verbatim>\<open>for i in range(self.num_vin): off += self._skip_input()\<close>\<close>

fun skip_inputs_off :: "nat \<Rightarrow> nat \<Rightarrow> stream \<Rightarrow> error + (nat \<times> stream)" where
  "skip_inputs_off 0 off s = Inr (off, s)"
| "skip_inputs_off (Suc n) off s =
     bind_err (skip_input s) (\<lambda>(k, s'). skip_inputs_off n (off + k) s')"

definition num_vout_offset :: "tx_view \<Rightarrow> error + (nat \<times> tx_view)" where
  "num_vout_offset t =
     (case cache_num_vout_offset t of
        Some off \<Rightarrow> Inr (off, t)
      | None \<Rightarrow>
          (let off = vin0_offset t;
               s = seek_set off (tx_stream t)
           in bind_err (skip_inputs_off (num_vin t) off s) (\<lambda>(off', s').
              Inr (off', t\<lparr>tx_stream := s', cache_num_vout_offset := Some off'\<rparr>))))"

definition num_vout :: "collab \<Rightarrow> tx_view \<Rightarrow> error + (nat \<times> tx_view)" where
  "num_vout E t =
     (case cache_num_vout t of
        Some n \<Rightarrow> Inr (n, t)
      | None \<Rightarrow>
          bind_err (num_vout_offset t) (\<lambda>(off, t1).
          bind_err (compact_read_from E (seek_set off (tx_stream t1))) (\<lambda>(n, s2).
          Inr (n, t1\<lparr>tx_stream := s2, cache_num_vout := Some n\<rparr>))))"

definition vout0_offset :: "collab \<Rightarrow> tx_view \<Rightarrow> error + (nat \<times> tx_view)" where
  "vout0_offset E t =
     (case cache_vout0_offset t of
        Some off \<Rightarrow> Inr (off, t)
      | None \<Rightarrow>
          bind_err (num_vout_offset t) (\<lambda>(off, t1).
          bind_err (num_vout E t1) (\<lambda>(n, t2).
          (let off0 = off + length (compact_to_bytes E n)
           in Inr (off0, t2\<lparr>cache_vout0_offset := Some off0\<rparr>)))))"

text \<open>\<^verbatim>\<open>for j in range(i): self._skip_input()\<close>\<close>

fun skip_inputs :: "nat \<Rightarrow> stream \<Rightarrow> error + stream" where
  "skip_inputs 0 s = Inr s"
| "skip_inputs (Suc n) s = bind_err (skip_input s) (\<lambda>(k, s'). skip_inputs n s')"

text \<open>
  \<^verbatim>\<open>
  def vin(self, i):
      if i < 0 or i >= self.num_vin:
          raise PSBTError("Invalid input index")
      self.stream.seek(self.vin0_offset)
      for j in range(i):
          self._skip_input()
      return LTransactionInput.read_from(self.stream)
  \<close>
\<close>

definition tx_vin :: "collab \<Rightarrow> tx_view \<Rightarrow> int \<Rightarrow> error + (ltx_input \<times> tx_view)" where
  "tx_vin E t i =
     (if i < 0 \<or> i \<ge> int (num_vin t) then Inl (PSBTError ''Invalid input index'')
      else bind_err (skip_inputs (nat i) (seek_set (vin0_offset t) (tx_stream t))) (\<lambda>s1.
           bind_err (ltxin_read_from E s1) (\<lambda>(inp, s2).
           Inr (inp, t\<lparr>tx_stream := s2\<rparr>))))"

text \<open>
  \<^verbatim>\<open>
  def _skip_output(self):
      self.stream.seek(33, 1) # asset
      c = self.stream.read(1)
      if c != b"\x01":
          self.stream.seek(32, 1) # confidential
      else:
          self.stream.seek(8, 1) # unconfidential
      c = self.stream.read(1)
      if c != b"\x00":
          self.stream.seek(32, 1) # ecdh_pubkey
      l = compact.read_from(self.stream)
      self.stream.seek(l, 1) # scriptpubkey
  \<close>
\<close>

definition skip_output :: "collab \<Rightarrow> stream \<Rightarrow> error + stream" where
  "skip_output E s =
     (let s1 = seek_cur 33 s;
          (c, s2) = read 1 s1;
          s3 = (if c \<noteq> [0x01] then seek_cur 32 s2 else seek_cur 8 s2);
          (c', s4) = read 1 s3;
          s5 = (if c' \<noteq> [0x00] then seek_cur 32 s4 else s4)
      in bind_err (compact_read_from E s5) (\<lambda>(l, s6). Inr (seek_cur l s6)))"

text \<open>\<^verbatim>\<open>while n: self._skip_output(); n -= 1\<close>, entered with \<open>n = i \<ge> 0\<close>.\<close>

fun skip_outputs :: "collab \<Rightarrow> nat \<Rightarrow> stream \<Rightarrow> error + stream" where
  "skip_outputs E 0 s = Inr s"
| "skip_outputs E (Suc n) s = bind_err (skip_output E s) (skip_outputs E n)"

text \<open>
  \<^verbatim>\<open>
  def vout(self, i):
      if i < 0 or i >= self.num_vout:
          raise PSBTError("Invalid input index")
      self.stream.seek(self.vout0_offset)
      n = i
      while n:
          self._skip_output()
          n -= 1
      return LTransactionOutput.read_from(self.stream)
  \<close>
  Python's \<^verbatim>\<open>or\<close> evaluates \<^verbatim>\<open>self.num_vout\<close> only when \<open>i \<ge> 0\<close>, and that
  property scans the inputs the first time it is read.
\<close>

definition tx_vout :: "collab \<Rightarrow> tx_view \<Rightarrow> int \<Rightarrow> error + (ltx_output \<times> tx_view)" where
  "tx_vout E t i =
     (if i < 0 then Inl (PSBTError ''Invalid input index'')
      else bind_err (num_vout E t) (\<lambda>(n, t1).
           if i \<ge> int n then Inl (PSBTError ''Invalid input index'')
           else bind_err (vout0_offset E t1) (\<lambda>(off, t2).
                bind_err (skip_outputs E (nat i) (seek_set off (tx_stream t2))) (\<lambda>s1.
                bind_err (ltxout_read_from E s1) (\<lambda>(out, s2).
                Inr (out, t2\<lparr>tx_stream := s2\<rparr>))))))"

section \<open>The PSET view\<close>

text \<open>
  \<^verbatim>\<open>PSETView\<close>: the inherited attributes \<^verbatim>\<open>num_inputs\<close>, \<^verbatim>\<open>num_outputs\<close>,
  \<^verbatim>\<open>tx\<close> (the transaction stream view, or \<open>None\<close>), \<^verbatim>\<open>tx_version\<close>,
  \<^verbatim>\<open>locktime\<close>, and the memoised digests \<^verbatim>\<open>_hash_outputs\<close>,
  \<^verbatim>\<open>_hash_rangeproofs\<close>, \<^verbatim>\<open>_hash_issuances\<close>.
\<close>

record pset_view =
  num_inputs :: nat
  num_outputs :: nat
  tx :: "tx_view option"
  tx_version :: int
  locktime :: int
  cache_hash_outputs :: "byte list option"
  cache_hash_rangeproofs :: "byte list option"
  cache_hash_issuances :: "byte list option"

text \<open>
  \<^verbatim>\<open>clear_cache\<close> resets the two digests this class adds; the inherited
  \<^verbatim>\<open>super().clear_cache()\<close>, which runs first, resets those of the base class.
\<close>

definition clear_cache :: "pset_view \<Rightarrow> pset_view" where
  "clear_cache v =
     (v\<lparr>cache_hash_outputs := None\<rparr>)\<lparr>cache_hash_rangeproofs := None, cache_hash_issuances := None\<rparr>"

text \<open>
  \<^verbatim>\<open>
  def vin(self, i):
      if i < 0 or i >= self.num_inputs:
          raise PSBTError("Invalid input index")
      if self.tx:
          return self.tx.vin(i)
      self.seek_to_scope(i)
      v = self._get_value(b"\x0e", from_current=True)
      txid = bytes(reversed(v))
      self.seek_to_scope(i)
      v = self._get_value(b"\x0f", from_current=True)
      vout = int.from_bytes(v, 'little')
      self.seek_to_scope(i)
      v = self._get_value(b"\x10", from_current=True) or b"\xFF\xFF\xFF\xFF"
      sequence = int.from_bytes(v, 'little')
      return LTransactionInput(txid, vout, sequence=sequence)
  \<close>
  \<^verbatim>\<open>reversed(None)\<close> and \<^verbatim>\<open>int.from_bytes(None, ...)\<close> raise \<^verbatim>\<open>TypeError\<close>;
  \<^verbatim>\<open>v or d\<close> is \<open>d\<close> when \<open>v\<close> is \<^verbatim>\<open>None\<close> or empty.
\<close>

definition pset_vin :: "collab \<Rightarrow> pset_view \<Rightarrow> int \<Rightarrow> error + (ltx_input \<times> pset_view)" where
  "pset_vin E v i =
     (if i < 0 \<or> i \<ge> int (num_inputs v) then Inl (PSBTError ''Invalid input index'')
      else case tx v of
        Some t \<Rightarrow> bind_err (tx_vin E t i) (\<lambda>(inp, t'). Inr (inp, v\<lparr>tx := Some t'\<rparr>))
      | None \<Rightarrow>
          bind_err (scope_value E (nat i) [0x0e]) (\<lambda>v1.
          bind_err (case v1 of None \<Rightarrow> Inl TypeError | Some b \<Rightarrow> Inr (rev b)) (\<lambda>txid'.
          bind_err (scope_value E (nat i) [0x0f]) (\<lambda>v2.
          bind_err (case v2 of None \<Rightarrow> Inl TypeError | Some b \<Rightarrow> Inr (from_bytes_le b)) (\<lambda>vout'.
          bind_err (scope_value E (nat i) [0x10]) (\<lambda>v3.
          (let v3' = (case v3 of None \<Rightarrow> [0xFF, 0xFF, 0xFF, 0xFF]
                       | Some b \<Rightarrow> if b = [] then [0xFF, 0xFF, 0xFF, 0xFF] else b);
               sequence' = from_bytes_le v3'
           in Inr (\<lparr>txid = txid', vout = vout', sequence = sequence'\<rparr>, v))))))))"

text \<open>
  Modelled from the spec: \<^verbatim>\<open>PSBTView.output(i)\<close>, the per-output record accessor of the
  base class, is not part of this module. The specification says that any index outside
  \<open>[0, count)\<close> raises the invalid-index condition and that otherwise the output record
  builder produces the record of output \<open>i\<close>. (\<open>output\<close> is a keyword of Isabelle:
  the accessor is \<open>pset_output\<close>.)
\<close>

definition pset_output :: "collab \<Rightarrow> pset_view \<Rightarrow> int \<Rightarrow> error + output_scope" where
  "pset_output E v i =
     (if i < 0 \<or> i \<ge> int (num_outputs v) then Inl (PSBTError ''Invalid output index'')
      else read_output_scope E (nat i))"

text \<open>
  \<^verbatim>\<open>def vout(self, i): return self.output(i).vout\<close> and
  \<^verbatim>\<open>def blinded_vout(self, i): return self.output(i).blinded_vout\<close>
\<close>

definition pset_vout :: "collab \<Rightarrow> pset_view \<Rightarrow> int \<Rightarrow> error + ltx_output" where
  "pset_vout E v i = bind_err (pset_output E v i) (\<lambda>sc. Inr (scope_vout sc))"

definition blinded_vout :: "collab \<Rightarrow> pset_view \<Rightarrow> int \<Rightarrow> error + ltx_output" where
  "blinded_vout E v i = bind_err (pset_output E v i) (\<lambda>sc. Inr (scope_blinded_vout sc))"

text \<open>
  \<^verbatim>\<open>
  def hash_issuances(self):
      if self._hash_issuances is None:
          self._hash_issuances = hashlib.sha256(b"\x00"*self.num_inputs).digest()
      return self._hash_issuances
  \<close>
\<close>

definition hash_issuances :: "collab \<Rightarrow> pset_view \<Rightarrow> byte list \<times> pset_view" where
  "hash_issuances E v =
     (case cache_hash_issuances v of
        Some d \<Rightarrow> (d, v)
      | None \<Rightarrow>
          (let d = sha256 E (replicate (num_inputs v) 0x00)
           in (d, v\<lparr>cache_hash_issuances := Some d\<rparr>)))"

text \<open>
  A hash object is modelled by the bytes it has been fed: \<^verbatim>\<open>h.update(b)\<close> appends
  \<open>b\<close>, and \<^verbatim>\<open>h.digest()\<close> is \<open>sha256\<close> of what was fed.
  \<^verbatim>\<open>
  def hash_rangeproofs(self):
      if self._hash_rangeproofs is None:
          h = hashlib.sha256()
          for i in range(self.num_outputs):
              out = self.blinded_vout(i)
              h.update(out.witness.range_proof.serialize())
              h.update(out.witness.surjection_proof.serialize())
          self._hash_rangeproofs = h.digest()
      return self._hash_rangeproofs
  \<close>
\<close>

fun rangeproofs_loop :: "collab \<Rightarrow> pset_view \<Rightarrow> nat list \<Rightarrow> byte list \<Rightarrow> error + byte list" where
  "rangeproofs_loop E v [] h = Inr h"
| "rangeproofs_loop E v (i # js) h =
     bind_err (blinded_vout E v (int i)) (\<lambda>out.
     rangeproofs_loop E v js
       ((h @ range_proof_serialize out) @ surjection_proof_serialize out))"

definition hash_rangeproofs :: "collab \<Rightarrow> pset_view \<Rightarrow> error + (byte list \<times> pset_view)" where
  "hash_rangeproofs E v =
     (case cache_hash_rangeproofs v of
        Some d \<Rightarrow> Inr (d, v)
      | None \<Rightarrow>
          bind_err (rangeproofs_loop E v [0 ..< num_outputs v] []) (\<lambda>h.
          (let d = sha256 E h in Inr (d, v\<lparr>cache_hash_rangeproofs := Some d\<rparr>))))"

text \<open>
  \<^verbatim>\<open>
  def hash_outputs(self):
      if self._hash_outputs is None:
          h = hashlib.sha256()
          for i in range(self.num_outputs):
              out = self.blinded_vout(i)
              h.update(out.serialize())
          self._hash_outputs = h.digest()
      return self._hash_outputs
  \<close>
\<close>

fun outputs_loop :: "collab \<Rightarrow> pset_view \<Rightarrow> nat list \<Rightarrow> byte list \<Rightarrow> error + byte list" where
  "outputs_loop E v [] h = Inr h"
| "outputs_loop E v (i # js) h =
     bind_err (blinded_vout E v (int i)) (\<lambda>out.
     outputs_loop E v js (h @ serialize out))"

definition hash_outputs :: "collab \<Rightarrow> pset_view \<Rightarrow> error + (byte list \<times> pset_view)" where
  "hash_outputs E v =
     (case cache_hash_outputs v of
        Some d \<Rightarrow> Inr (d, v)
      | None \<Rightarrow>
          bind_err (outputs_loop E v [0 ..< num_outputs v] []) (\<lambda>h.
          (let d = sha256 E h in Inr (d, v\<lparr>cache_hash_outputs := Some d\<rparr>))))"

section \<open>The segwit signature hash\<close>

text \<open>
  The \<^verbatim>\<open>value\<close> argument of \<^verbatim>\<open>sighash_segwit\<close> is an integer amount or the bytes of
  a confidential value commitment (\<^verbatim>\<open>isinstance(value, int)\<close> tells them apart).
\<close>

datatype value_arg = IntValue int | BytesValue "byte list"

text \<open>
  \<^verbatim>\<open>sighash_segwit\<close> is modelled in three parts that follow the source line by line.
  The first is lines 172 to 192, from reading the input to its sequence number:
  \<^verbatim>\<open>
  inp = self.vin(input_index)
  zero = b"\x00"*32 # for sighashes
  h = hashlib.sha256()
  h.update(self.tx_version.to_bytes(4, "little"))
  if anyonecanpay:
      h.update(zero)
  else:
      h.update(hashlib.sha256(self.hash_prevouts()).digest())
  if anyonecanpay or sh in [SIGHASH.NONE, SIGHASH.SINGLE]:
      h.update(zero)
  else:
      h.update(hashlib.sha256(self.hash_sequence()).digest())
  h.update(hashlib.sha256(self.hash_issuances()).digest())
  h.update(bytes(reversed(inp.txid)))
  h.update(inp.vout.to_bytes(4, "little"))
  h.update(script_pubkey.serialize())
  if isinstance(value, int):
      h.update(b"\x01"+value.to_bytes(8, 'big'))
  else:
      h.update(value)
  h.update(inp.sequence.to_bytes(4, "little"))
  \<close>
\<close>

definition sighash_head ::
  "collab \<Rightarrow> pset_view \<Rightarrow> int \<Rightarrow> byte list \<Rightarrow> value_arg \<Rightarrow> int \<Rightarrow> bool \<Rightarrow>
     error + (byte list \<times> pset_view)" where
  "sighash_head E v input_index script_pubkey value sh anyonecanpay =
     bind_err (pset_vin E v input_index) (\<lambda>(inp, v1).
     (let zero = replicate 32 0x00;
          h = []
      in bind_err (to_bytes_le (tx_version v1) 4) (\<lambda>b.
         (let h = h @ b
          in bind_err (if anyonecanpay then Inr (h @ zero)
                       else bind_err (hash_prevouts E) (\<lambda>p. Inr (h @ sha256 E p))) (\<lambda>h.
             bind_err (if anyonecanpay \<or> sh \<in> set [SIGHASH_NONE E, SIGHASH_SINGLE E]
                       then Inr (h @ zero)
                       else bind_err (hash_sequence E) (\<lambda>q. Inr (h @ sha256 E q))) (\<lambda>h.
             (let (hi, v2) = hash_issuances E v1;
                  h = h @ sha256 E hi;
                  h = h @ rev (txid inp)
              in bind_err (to_bytes_le (vout inp) 4) (\<lambda>b.
                 (let h = h @ b;
                      h = h @ script_serialize E script_pubkey
                  in bind_err (case value of
                                 IntValue n \<Rightarrow>
                                   bind_err (to_bytes_be n 8) (\<lambda>b. Inr (h @ (0x01 # b)))
                               | BytesValue bs \<Rightarrow> Inr (h @ bs)) (\<lambda>h.
                     bind_err (to_bytes_le (sequence inp) 4) (\<lambda>b.
                     Inr (h @ b, v2))))))))))))"

text \<open>
  The second part is lines 193 to 202, the outputs:
  \<^verbatim>\<open>
  if not (sh in [SIGHASH.NONE, SIGHASH.SINGLE]):
      h.update(hashlib.sha256(self.hash_outputs()).digest())
      if hash_rangeproofs:
          h.update(hashlib.sha256(self.hash_rangeproofs()).digest())
  elif sh == SIGHASH.SINGLE and input_index < self.num_outputs:
      h.update(hashlib.sha256(hashlib.sha256(self.blinded_vout(input_index).serialize()).digest()).digest())
      if hash_rangeproofs:
          h.update(hashlib.sha256(hashlib.sha256(self.blinded_vout(input_index).witness.serialize()).digest()).digest())
  else:
      h.update(zero)
  \<close>
\<close>

definition sighash_outputs ::
  "collab \<Rightarrow> pset_view \<Rightarrow> int \<Rightarrow> int \<Rightarrow> bool \<Rightarrow> byte list \<Rightarrow> error + (byte list \<times> pset_view)" where
  "sighash_outputs E v input_index sh hash_rangeproofs' h =
     (let zero = replicate 32 0x00
      in if \<not> (sh \<in> set [SIGHASH_NONE E, SIGHASH_SINGLE E]) then
           bind_err (hash_outputs E v) (\<lambda>(ho, v1).
           (let h = h @ sha256 E ho
            in if hash_rangeproofs' then
                 bind_err (hash_rangeproofs E v1) (\<lambda>(hr, v2). Inr (h @ sha256 E hr, v2))
               else Inr (h, v1)))
         else if sh = SIGHASH_SINGLE E \<and> input_index < int (num_outputs v) then
           bind_err (blinded_vout E v input_index) (\<lambda>out.
           (let h = h @ sha256 E (sha256 E (serialize out))
            in if hash_rangeproofs' then
                 bind_err (blinded_vout E v input_index) (\<lambda>out'.
                 Inr (h @ sha256 E (sha256 E (witness_serialize out')), v))
               else Inr (h, v)))
         else Inr (h @ zero, v))"

text \<open>
  The whole method: the bounds check (lines 169, 170), the flag decoder (line 171), the two
  parts above, and
  \<^verbatim>\<open>
  h.update(self.locktime.to_bytes(4, "little"))
  h.update(sighash.to_bytes(4, "little"))
  return hashlib.sha256(h.digest()).digest()
  \<close>
  \<open>sighash_segwit_data\<close> is what has been fed to \<open>h\<close> when the method returns, and
  \<open>sighash_segwit\<close> is the method: the argument \<^verbatim>\<open>sighash\<close> is optional and defaults to
  \<^verbatim>\<open>LSIGHASH.ALL | LSIGHASH.RANGEPROOF\<close>.
\<close>

definition sighash_segwit_data ::
  "collab \<Rightarrow> pset_view \<Rightarrow> int \<Rightarrow> byte list \<Rightarrow> value_arg \<Rightarrow> int \<Rightarrow>
     error + (byte list \<times> pset_view)" where
  "sighash_segwit_data E v input_index script_pubkey value sighash =
     (if input_index < 0 \<or> input_index \<ge> int (num_inputs v)
      then Inl (PSBTError ''Invalid input index'')
      else bind_err (LSIGHASH_check E sighash) (\<lambda>(sh, anyonecanpay, hash_rangeproofs').
           bind_err (sighash_head E v input_index script_pubkey value sh anyonecanpay) (\<lambda>(h, v1).
           bind_err (sighash_outputs E v1 input_index sh hash_rangeproofs' h) (\<lambda>(h, v2).
           bind_err (to_bytes_le (locktime v2) 4) (\<lambda>b1.
           bind_err (to_bytes_le sighash 4) (\<lambda>b2.
           Inr ((h @ b1) @ b2, v2)))))))"

definition sighash_segwit ::
  "collab \<Rightarrow> pset_view \<Rightarrow> int \<Rightarrow> byte list \<Rightarrow> value_arg \<Rightarrow> int option \<Rightarrow>
     error + (byte list \<times> pset_view)" where
  "sighash_segwit E v input_index script_pubkey value sighash_arg =
     (let sighash = (case sighash_arg of
                       None \<Rightarrow> SIGHASH_ALL E OR LSIGHASH_RANGEPROOF E
                     | Some f \<Rightarrow> f)
      in bind_err (sighash_segwit_data E v input_index script_pubkey value sighash) (\<lambda>(h, v').
         Inr (sha256 E (sha256 E h), v')))"

text \<open>
  \<^verbatim>\<open>
  def sighash_legacy(self, input_index, script_pubkey, sighash=SIGHASH.ALL):
      raise NotImplementedError()

  def sighash_taproot(self, input_index, script_pubkeys, values, sighash=SIGHASH.DEFAULT):
      """check out bip-341"""
      raise NotImplementedError()
  \<close>
\<close>

definition sighash_legacy ::
  "collab \<Rightarrow> pset_view \<Rightarrow> int \<Rightarrow> byte list \<Rightarrow> int option \<Rightarrow> error + (byte list \<times> pset_view)" where
  "sighash_legacy E v input_index script_pubkey sighash_arg = Inl NotImplementedError"

definition sighash_taproot ::
  "collab \<Rightarrow> pset_view \<Rightarrow> int \<Rightarrow> byte list list \<Rightarrow> value_arg list \<Rightarrow> int option \<Rightarrow>
     error + (byte list \<times> pset_view)" where
  "sighash_taproot E v input_index script_pubkeys values sighash_arg = Inl NotImplementedError"

section \<open>Example documents\<close>

text \<open>
  Two serialised inputs: one that spends output 1 of a transaction, with no issuance and
  no peg-in, and one whose \<open>vout\<close> field has bit 31 set, followed by the issuance fields
  (nonce, entropy, an absent amount commitment, an explicit token commitment).
\<close>

definition plain_input :: "byte list" where
  "plain_input =
     replicate 32 0xAB @ [0x01, 0x00, 0x00, 0x00] @ [0x00, 0xFF, 0xFF, 0xFF, 0xFF]"

definition issuance_input :: "byte list" where
  "issuance_input =
     replicate 32 0xAB @ [0x01, 0x00, 0x00, 0x80] @ [0x00, 0xFF, 0xFF, 0xFF, 0xFF] @
     replicate 64 0x11 @ [0x00] @ [0x01, 0, 0, 0, 0, 0, 0, 0, 5]"

text \<open>
  One instance of the collaborators, to run the model on. The digest is a 32-byte
  checksum in the place of SHA-256 (every statement below holds for any function in that
  place); the compact codec is the one-byte case; the flag decoder is the usual layout of
  the flags (ALL = 1, NONE = 2, SINGLE = 3, RANGEPROOF = 0x40, ANYONECANPAY = 0x80); every
  input scope holds a previous txid and a previous output index and no sequence field.
\<close>

definition example_digest :: "byte list \<Rightarrow> byte list" where
  "example_digest bs = of_nat (length bs) # replicate 31 (foldr (+) bs 0)"

definition example_compact_read :: "stream \<Rightarrow> error + (nat \<times> stream)" where
  "example_compact_read s =
     (let (c, s1) = read 1 s
      in case c of [b] \<Rightarrow> Inr (unat b, s1) | _ \<Rightarrow> Inl (StreamError ''short read''))"

definition example_ltxin_read :: "stream \<Rightarrow> error + (ltx_input \<times> stream)" where
  "example_ltxin_read s =
     (let (bs, s1) = read 41 s
      in if length bs \<noteq> 41 then Inl (StreamError ''short read'')
         else Inr (\<lparr>txid = rev (take 32 bs),
                    vout = from_bytes_le (take 4 (drop 32 bs)),
                    sequence = from_bytes_le (drop 37 bs)\<rparr>, s1))"

definition example_output :: "nat \<Rightarrow> ltx_output" where
  "example_output i =
     \<lparr>serialize = [of_nat i, 0xA0], witness_serialize = [of_nat i, 0xB0],
      range_proof_serialize = [of_nat i, 0xC0], surjection_proof_serialize = [of_nat i, 0xD0]\<rparr>"

definition example_ltxout_read :: "stream \<Rightarrow> error + (ltx_output \<times> stream)" where
  "example_ltxout_read s =
     (let (bs, s1) = read 2 s
      in if length bs \<noteq> 2 then Inl (StreamError ''short read'')
         else Inr (example_output (unat (hd bs)), s1))"

definition example_check :: "int \<Rightarrow> error + (int \<times> bool \<times> bool)" where
  "example_check f =
     (let acp = (f AND 0x80 \<noteq> 0);
          f1 = (if acp then f XOR 0x80 else f);
          rp = (f1 AND 0x40 \<noteq> 0);
          f2 = (if rp then f1 XOR 0x40 else f1)
      in if f2 \<in> set [1, 2, 3] then Inr (f2, acp, rp)
         else Inl (ValueError ''Invalid SIGHASH type''))"

definition example_scope_value :: "nat \<Rightarrow> byte list \<Rightarrow> error + byte list option" where
  "example_scope_value i key =
     (if key = [0x0e] then Inr (Some (of_nat i # replicate 31 0x22))
      else if key = [0x0f] then Inr (Some [0x01, 0x00, 0x00, 0x00])
      else Inr None)"

definition example_collab :: collab where
  "example_collab =
     \<lparr>sha256 = example_digest,
      compact_read_from = example_compact_read,
      compact_to_bytes = (\<lambda>n. [of_nat n]),
      ltxin_read_from = example_ltxin_read,
      ltxout_read_from = example_ltxout_read,
      SIGHASH_ALL = 1, SIGHASH_NONE = 2, SIGHASH_SINGLE = 3, LSIGHASH_RANGEPROOF = 0x40,
      LSIGHASH_check = example_check,
      scope_value = example_scope_value,
      read_output_scope =
        (\<lambda>i. Inr \<lparr>scope_vout = example_output i, scope_blinded_vout = example_output i\<rparr>),
      hash_prevouts = Inr [0x50],
      hash_sequence = Inr [0x60],
      script_serialize = (\<lambda>bs. of_nat (length bs) # bs)\<rparr>"

text \<open>A view of a PSET with two inputs and one output, with no transaction attached.\<close>

definition example_view :: pset_view where
  "example_view =
     \<lparr>num_inputs = 2, num_outputs = 1, tx = None, tx_version = 2, locktime = 0,
      cache_hash_outputs = None, cache_hash_rangeproofs = None, cache_hash_issuances = None\<rparr>"

text \<open>
  A transaction view over a stream that holds the two inputs above and then one output;
  the first input starts at offset 6.
\<close>

definition example_tx_view :: tx_view where
  "example_tx_view =
     \<lparr>tx_stream = \<lparr>buf = [0x02, 0, 0, 0, 0x00, 0x02] @ plain_input @ issuance_input @
                            [0x01] @ [0x07, 0xA0], pos = 0\<rparr>,
      num_vin = 2, vin0_offset = 6,
      cache_num_vout_offset = None, cache_num_vout = None, cache_vout0_offset = None\<rparr>"

section \<open>Basic facts\<close>

lemma bind_err_Inr [simp]: "bind_err (Inr x) f = f x"
  by (simp add: bind_err_def)

lemma bind_err_Inl [simp]: "bind_err (Inl e) f = Inl e"
  by (simp add: bind_err_def)

lemma bind_err_eq_Inr:
  "bind_err m f = Inr y \<longleftrightarrow> (\<exists>x. m = Inr x \<and> f x = Inr y)"
  by (cases m) simp_all

lemma read_1_in_range:
  "pos s < length (buf s) \<Longrightarrow> read (Suc 0) s = ([buf s ! pos s], s\<lparr>pos := pos s + 1\<rparr>)"
  by (simp add: read_def Let_def take_Suc hd_drop_conv_nth drop_eq_Nil split: list.splits)

lemma read_1_at_end:
  "length (buf s) \<le> pos s \<Longrightarrow> read (Suc 0) s = ([], s)"
  by (simp add: read_def)

lemma skip_commitment_in_range:
  assumes "pos s < length (buf s)"
  shows "skip_commitment s =
           Inr (commitment_len (buf s ! pos s), s\<lparr>pos := pos s + commitment_len (buf s ! pos s)\<rparr>)"
  using assms
  by (simp add: skip_commitment_def read_1_in_range commitment_len_def seek_cur_def)

lemma skip_commitment_at_end:
  assumes "length (buf s) \<le> pos s"
  shows "skip_commitment s = Inl AssertionError"
  using assms by (simp add: skip_commitment_def read_1_at_end)

lemma skip_commitment_Inr:
  assumes "skip_commitment s = Inr (n, s')"
  shows "pos s < length (buf s) \<and> n = commitment_len (buf s ! pos s) \<and> s' = s\<lparr>pos := pos s + n\<rparr>"
proof (cases "pos s < length (buf s)")
  case True
  with assms skip_commitment_in_range [OF True] show ?thesis by auto
next
  case False
  then have "skip_commitment s = Inl AssertionError"
    by (simp add: skip_commitment_at_end)
  with assms show ?thesis by simp
qed

lemma read_4_in_range:
  "pos s + 4 \<le> length (buf s) \<Longrightarrow>
   read 4 s = (take 4 (drop (pos s) (buf s)), s\<lparr>pos := pos s + 4\<rparr>)"
  by (simp add: read_def Let_def)

lemma has_issuance_bit: "((v::int) AND push_bit 31 1 \<noteq> 0) = bit v 31"
  by (simp add: bit_iff_and_push_bit_not_eq_0)

lemma skip_input_head:
  assumes "pos s + 36 \<le> length (buf s)"
  shows "skip_input s =
     (if raw_vout s \<noteq> 0xFFFFFFFF \<and> bit (raw_vout s) 31
      then bind_err (skip_commitment (s\<lparr>pos := pos s + 105\<rparr>)) (\<lambda>(n1, s5).
           bind_err (skip_commitment s5) (\<lambda>(n2, s6). Inr (105 + n1 + n2, s6)))
      else Inr (41, s\<lparr>pos := pos s + 41\<rparr>))"
proof -
  have r: "read 4 (seek_cur 32 s) =
      (take 4 (drop (pos s + 32) (buf s)), s\<lparr>pos := pos s + 36\<rparr>)"
    using assms by (simp add: read_4_in_range seek_cur_def add.commute)
  show ?thesis
    unfolding skip_input_def Let_def r raw_vout_def has_issuance_bit
    by (simp add: seek_cur_def add.commute)
qed

lemma bind_err_InrE:
  assumes "bind_err m f = Inr y"
  obtains x where "m = Inr x" and "f x = Inr y"
  using assms by (cases m) simp_all

lemma blinded_vout_cong:
  "num_outputs v' = num_outputs v \<Longrightarrow> blinded_vout E v' i = blinded_vout E v i"
  by (simp add: blinded_vout_def pset_output_def)

lemma outputs_loop_cong:
  "num_outputs v' = num_outputs v \<Longrightarrow> outputs_loop E v' js h = outputs_loop E v js h"
  by (induction js arbitrary: h) (simp_all add: blinded_vout_cong [of v' v])

lemma rangeproofs_loop_cong:
  "num_outputs v' = num_outputs v \<Longrightarrow> rangeproofs_loop E v' js h = rangeproofs_loop E v js h"
  by (induction js arbitrary: h) (simp_all add: blinded_vout_cong [of v' v])

lemma hash_outputs_Inr:
  assumes "hash_outputs E v = Inr (d, v1)"
  shows "num_outputs v1 = num_outputs v \<and> num_inputs v1 = num_inputs v \<and> locktime v1 = locktime v \<and>
         cache_hash_rangeproofs v1 = cache_hash_rangeproofs v \<and>
         cache_hash_issuances v1 = cache_hash_issuances v"
  using assms
  by (auto simp: hash_outputs_def bind_err_eq_Inr Let_def split: option.splits)

lemma hash_rangeproofs_Inr:
  assumes "hash_rangeproofs E v = Inr (d, v1)"
  shows "num_outputs v1 = num_outputs v \<and> num_inputs v1 = num_inputs v \<and> locktime v1 = locktime v \<and>
         cache_hash_outputs v1 = cache_hash_outputs v \<and>
         cache_hash_issuances v1 = cache_hash_issuances v"
  using assms
  by (auto simp: hash_rangeproofs_def bind_err_eq_Inr Let_def split: option.splits)

lemma hash_outputs_cong:
  assumes "num_outputs v' = num_outputs v" and "cache_hash_outputs v' = cache_hash_outputs v"
    and "hash_outputs E v' = Inr (d, s')"
  shows "\<exists>s. hash_outputs E v = Inr (d, s)"
  using assms
  by (auto simp: hash_outputs_def bind_err_eq_Inr Let_def outputs_loop_cong [of v' v]
      split: option.splits)

lemma hash_rangeproofs_cong:
  assumes "num_outputs v' = num_outputs v" and "cache_hash_rangeproofs v' = cache_hash_rangeproofs v"
    and "hash_rangeproofs E v' = Inr (d, s')"
  shows "\<exists>s. hash_rangeproofs E v = Inr (d, s)"
  using assms
  by (auto simp: hash_rangeproofs_def bind_err_eq_Inr Let_def rangeproofs_loop_cong [of v' v]
      split: option.splits)

lemma pset_vin_Inr:
  assumes "pset_vin E v i = Inr (inp, v1)"
  shows "\<exists>t. v1 = v\<lparr>tx := t\<rparr>"
proof (cases "tx v")
  case None
  with assms have "v1 = v"
    by (auto simp: pset_vin_def bind_err_eq_Inr Let_def split: if_splits)
  then have "v1 = v\<lparr>tx := tx v\<rparr>" by simp
  then show ?thesis ..
next
  case (Some t)
  with assms show ?thesis
    by (auto simp: pset_vin_def bind_err_eq_Inr split: if_splits)
qed

lemma hash_issuances_state:
  "\<exists>c. snd (hash_issuances E v) = v\<lparr>cache_hash_issuances := c\<rparr>"
proof (cases "cache_hash_issuances v")
  case None
  then show ?thesis by (auto simp: hash_issuances_def Let_def)
next
  case (Some d)
  then have "snd (hash_issuances E v) = v\<lparr>cache_hash_issuances := cache_hash_issuances v\<rparr>"
    by (simp add: hash_issuances_def)
  then show ?thesis ..
qed

lemma sighash_head_Inr:
  assumes "sighash_head E v idx spk val sh acp = Inr (h, vh)"
  shows "\<exists>t c. vh = v\<lparr>tx := t, cache_hash_issuances := c\<rparr>"
proof -
  from assms obtain inp v1 where vin: "pset_vin E v idx = Inr (inp, v1)"
    and vh: "vh = snd (hash_issuances E v1)"
    by (auto simp: sighash_head_def bind_err_eq_Inr Let_def split_beta)
  from pset_vin_Inr [OF vin] obtain t where "v1 = v\<lparr>tx := t\<rparr>" ..
  moreover from hash_issuances_state [of E v1] obtain c
    where "snd (hash_issuances E v1) = v1\<lparr>cache_hash_issuances := c\<rparr>" ..
  ultimately show ?thesis using vh by auto
qed


lemma sighash_outputs_Inr:
  assumes "sighash_outputs E v idx sh rp h = Inr (h2, v2)"
  shows "locktime v2 = locktime v \<and>
    (\<exists>ot. h2 = h @ ot \<and>
      (if sh \<noteq> SIGHASH_NONE E \<and> sh \<noteq> SIGHASH_SINGLE E then
         \<exists>ho s. hash_outputs E v = Inr (ho, s) \<and>
           (if rp then \<exists>hr s'. hash_rangeproofs E v = Inr (hr, s') \<and>
                          ot = sha256 E ho @ sha256 E hr
            else ot = sha256 E ho)
       else if sh = SIGHASH_SINGLE E \<and> idx < int (num_outputs v) then
         \<exists>out. blinded_vout E v idx = Inr out \<and>
           ot = sha256 E (sha256 E (serialize out)) @
                  (if rp then sha256 E (sha256 E (witness_serialize out)) else [])
       else ot = replicate 32 0x00))"
proof (cases "sh \<noteq> SIGHASH_NONE E \<and> sh \<noteq> SIGHASH_SINGLE E")
  case True
  with assms obtain ho v1 where ho: "hash_outputs E v = Inr (ho, v1)"
    and rest: "(if rp then bind_err (hash_rangeproofs E v1)
                  (\<lambda>(hr, v2). Inr ((h @ sha256 E ho) @ sha256 E hr, v2))
               else Inr (h @ sha256 E ho, v1)) = Inr (h2, v2)"
    by (auto simp: sighash_outputs_def Let_def bind_err_eq_Inr)
  note p1 = hash_outputs_Inr [OF ho]
  show ?thesis
  proof (cases rp)
    case False
    with rest p1 ho True show ?thesis by auto
  next
    case rp: True
    with rest obtain hr where hr: "hash_rangeproofs E v1 = Inr (hr, v2)"
      and h2: "h2 = (h @ sha256 E ho) @ sha256 E hr"
      by (auto simp: bind_err_eq_Inr)
    from p1 have "num_outputs v1 = num_outputs v"
      and "cache_hash_rangeproofs v1 = cache_hash_rangeproofs v" by simp_all
    from hash_rangeproofs_cong [OF this hr] obtain s' where
      "hash_rangeproofs E v = Inr (hr, s')" ..
    moreover from hash_rangeproofs_Inr [OF hr] p1 have "locktime v2 = locktime v" by simp
    ultimately show ?thesis using True rp ho h2 by auto
  qed
next
  case ns: False
  show ?thesis
  proof (cases "sh = SIGHASH_SINGLE E \<and> idx < int (num_outputs v)")
    case False
    with ns assms show ?thesis
      by (auto simp: sighash_outputs_def Let_def)
  next
    case True
    with ns assms obtain out where out: "blinded_vout E v idx = Inr out"
      and rest: "(if rp then Inr ((h @ sha256 E (sha256 E (serialize out))) @
                                    sha256 E (sha256 E (witness_serialize out)), v)
                  else Inr (h @ sha256 E (sha256 E (serialize out)), v)) = Inr (h2, v2)"
      by (auto simp: sighash_outputs_def Let_def bind_err_eq_Inr split: if_splits)
    with ns True show ?thesis by (auto split: if_splits)
  qed
qed

lemma sighash_segwit_data_Inr:
  assumes "sighash_segwit_data E v idx spk val sighash = Inr (m, v')"
  obtains sh acp rp h vh h2 lt fl where
    "LSIGHASH_check E sighash = Inr (sh, acp, rp)"
    and "sighash_head E v idx spk val sh acp = Inr (h, vh)"
    and "sighash_outputs E vh idx sh rp h = Inr (h2, v')"
    and "to_bytes_le (locktime v') 4 = Inr lt"
    and "to_bytes_le sighash 4 = Inr fl"
    and "m = (h2 @ lt) @ fl"
    and "0 \<le> idx" and "idx < int (num_inputs v)"
proof -
  from assms have rng: "0 \<le> idx" "idx < int (num_inputs v)"
    unfolding sighash_segwit_data_def by (simp_all split: if_splits)
  from assms have b0: "bind_err (LSIGHASH_check E sighash) (\<lambda>(sh, anyonecanpay, hash_rangeproofs').
           bind_err (sighash_head E v idx spk val sh anyonecanpay) (\<lambda>(h, v1).
           bind_err (sighash_outputs E v1 idx sh hash_rangeproofs' h) (\<lambda>(h, v2).
           bind_err (to_bytes_le (locktime v2) 4) (\<lambda>b1.
           bind_err (to_bytes_le sighash 4) (\<lambda>b2.
           Inr ((h @ b1) @ b2, v2)))))) = Inr (m, v')"
    unfolding sighash_segwit_data_def by (simp split: if_splits)
  from b0 obtain x where chk0: "LSIGHASH_check E sighash = Inr x"
    and b1: "(case x of (sh, anyonecanpay, hash_rangeproofs') \<Rightarrow>
           bind_err (sighash_head E v idx spk val sh anyonecanpay) (\<lambda>(h, v1).
           bind_err (sighash_outputs E v1 idx sh hash_rangeproofs' h) (\<lambda>(h, v2).
           bind_err (to_bytes_le (locktime v2) 4) (\<lambda>b1.
           bind_err (to_bytes_le sighash 4) (\<lambda>b2.
           Inr ((h @ b1) @ b2, v2)))))) = Inr (m, v')"
    by (rule bind_err_InrE)
  obtain sh acp rp where x: "x = (sh, acp, rp)" by (cases x)
  from chk0 x have chk: "LSIGHASH_check E sighash = Inr (sh, acp, rp)" by simp
  from b1 x obtain y where hd0: "sighash_head E v idx spk val sh acp = Inr y"
    and b2: "(case y of (h, v1) \<Rightarrow>
           bind_err (sighash_outputs E v1 idx sh rp h) (\<lambda>(h, v2).
           bind_err (to_bytes_le (locktime v2) 4) (\<lambda>b1.
           bind_err (to_bytes_le sighash 4) (\<lambda>b2.
           Inr ((h @ b1) @ b2, v2))))) = Inr (m, v')"
    by (auto elim: bind_err_InrE)
  obtain h vh where y: "y = (h, vh)" by (cases y)
  from hd0 y have hd: "sighash_head E v idx spk val sh acp = Inr (h, vh)" by simp
  from b2 y obtain z where outs0: "sighash_outputs E vh idx sh rp h = Inr z"
    and b3: "(case z of (h, v2) \<Rightarrow>
           bind_err (to_bytes_le (locktime v2) 4) (\<lambda>b1.
           bind_err (to_bytes_le sighash 4) (\<lambda>b2.
           Inr ((h @ b1) @ b2, v2)))) = Inr (m, v')"
    by (auto elim: bind_err_InrE)
  obtain h2 v2 where z: "z = (h2, v2)" by (cases z)
  from outs0 z have outs: "sighash_outputs E vh idx sh rp h = Inr (h2, v2)" by simp
  from b3 z obtain lt where lt: "to_bytes_le (locktime v2) 4 = Inr lt"
    and b4: "bind_err (to_bytes_le sighash 4) (\<lambda>b2. Inr ((h2 @ lt) @ b2, v2)) = Inr (m, v')"
    by (auto elim: bind_err_InrE)
  from b4 obtain fl where fl: "to_bytes_le sighash 4 = Inr fl"
    and m: "m = (h2 @ lt) @ fl" and v': "v2 = v'"
    by (auto elim: bind_err_InrE)
  from that [OF chk hd outs [unfolded v'] lt [unfolded v'] fl m rng] show ?thesis .
qed

lemma sighash_segwit_data_decomp:
  assumes "sighash_segwit_data E v idx spk val sighash = Inr (m, v')"
  shows "\<exists>sh acp rp h vh lt fl ot.
      LSIGHASH_check E sighash = Inr (sh, acp, rp) \<and>
      sighash_head E v idx spk val sh acp = Inr (h, vh) \<and>
      to_bytes_le (locktime v) 4 = Inr lt \<and>
      to_bytes_le sighash 4 = Inr fl \<and>
      m = h @ ot @ lt @ fl \<and>
      (if sh \<noteq> SIGHASH_NONE E \<and> sh \<noteq> SIGHASH_SINGLE E then
         \<exists>ho s. hash_outputs E v = Inr (ho, s) \<and>
           (if rp then \<exists>hr s'. hash_rangeproofs E v = Inr (hr, s') \<and>
                          ot = sha256 E ho @ sha256 E hr
            else ot = sha256 E ho)
       else if sh = SIGHASH_SINGLE E \<and> idx < int (num_outputs v) then
         \<exists>out. blinded_vout E v idx = Inr out \<and>
           ot = sha256 E (sha256 E (serialize out)) @
                  (if rp then sha256 E (sha256 E (witness_serialize out)) else [])
       else ot = replicate 32 0x00)"
proof -
  from assms obtain sh acp rp h vh h2 lt fl where
    chk: "LSIGHASH_check E sighash = Inr (sh, acp, rp)"
    and hd: "sighash_head E v idx spk val sh acp = Inr (h, vh)"
    and outs: "sighash_outputs E vh idx sh rp h = Inr (h2, v')"
    and lt: "to_bytes_le (locktime v') 4 = Inr lt"
    and fl: "to_bytes_le sighash 4 = Inr fl"
    and m: "m = (h2 @ lt) @ fl"
    and "0 \<le> idx" and "idx < int (num_inputs v)"
    by (rule sighash_segwit_data_Inr)
  from sighash_head_Inr [OF hd] obtain t c
    where vh: "vh = v\<lparr>tx := t, cache_hash_issuances := c\<rparr>" by blast
  then have same: "num_outputs vh = num_outputs v" "cache_hash_outputs vh = cache_hash_outputs v"
    "cache_hash_rangeproofs vh = cache_hash_rangeproofs v" "locktime vh = locktime v"
    by simp_all
  from sighash_outputs_Inr [OF outs] obtain ot where
    l2: "locktime v' = locktime vh" and h2: "h2 = h @ ot"
    and cases: "(if sh \<noteq> SIGHASH_NONE E \<and> sh \<noteq> SIGHASH_SINGLE E then
         \<exists>ho s. hash_outputs E vh = Inr (ho, s) \<and>
           (if rp then \<exists>hr s'. hash_rangeproofs E vh = Inr (hr, s') \<and>
                          ot = sha256 E ho @ sha256 E hr
            else ot = sha256 E ho)
       else if sh = SIGHASH_SINGLE E \<and> idx < int (num_outputs vh) then
         \<exists>out. blinded_vout E vh idx = Inr out \<and>
           ot = sha256 E (sha256 E (serialize out)) @
                  (if rp then sha256 E (sha256 E (witness_serialize out)) else [])
       else ot = replicate 32 0x00)"
    by blast
  have ho: "\<exists>s. hash_outputs E v = Inr (d, s)" if "hash_outputs E vh = Inr (d, s')" for d s'
    using hash_outputs_cong [OF same(1) same(2) that] .
  have hr: "\<exists>s. hash_rangeproofs E v = Inr (d, s)" if "hash_rangeproofs E vh = Inr (d, s')" for d s'
    using hash_rangeproofs_cong [OF same(1) same(3) that] .
  have bv: "blinded_vout E vh idx = blinded_vout E v idx"
    by (rule blinded_vout_cong [OF same(1)])
  have cases': "(if sh \<noteq> SIGHASH_NONE E \<and> sh \<noteq> SIGHASH_SINGLE E then
         \<exists>ho s. hash_outputs E v = Inr (ho, s) \<and>
           (if rp then \<exists>hr s'. hash_rangeproofs E v = Inr (hr, s') \<and>
                          ot = sha256 E ho @ sha256 E hr
            else ot = sha256 E ho)
       else if sh = SIGHASH_SINGLE E \<and> idx < int (num_outputs v) then
         \<exists>out. blinded_vout E v idx = Inr out \<and>
           ot = sha256 E (sha256 E (serialize out)) @
                  (if rp then sha256 E (sha256 E (witness_serialize out)) else [])
       else ot = replicate 32 0x00)"
  proof (cases "sh \<noteq> SIGHASH_NONE E \<and> sh \<noteq> SIGHASH_SINGLE E")
    case True
    with cases obtain d s where d: "hash_outputs E vh = Inr (d, s)"
      and r: "if rp then \<exists>hr s'. hash_rangeproofs E vh = Inr (hr, s') \<and>
                          ot = sha256 E d @ sha256 E hr
            else ot = sha256 E d"
      by auto
    from ho [OF d] obtain s0 where d0: "hash_outputs E v = Inr (d, s0)" ..
    show ?thesis
    proof (cases rp)
      case False
      with True d0 r show ?thesis by auto
    next
      case rp: True
      with r obtain e s' where e: "hash_rangeproofs E vh = Inr (e, s')"
        and t: "ot = sha256 E d @ sha256 E e" by auto
      from hr [OF e] obtain s1 where "hash_rangeproofs E v = Inr (e, s1)" ..
      with True rp d0 t show ?thesis by auto
    qed
  next
    case False
    from cases [unfolded bv same(1)] False show ?thesis
      by (simp only: if_False)
  qed
  from lt l2 same(4) have "to_bytes_le (locktime v) 4 = Inr lt" by simp
  moreover from m h2 have "m = h @ ot @ lt @ fl" by simp
  ultimately show ?thesis using chk hd fl cases'
    by (intro exI conjI) assumption+
qed


lemma length_le_bytes [simp]: "length (le_bytes n v) = n"
  by (induction n arbitrary: v) simp_all

lemma from_bytes_le_le_bytes:
  "0 \<le> v \<Longrightarrow> from_bytes_le (le_bytes n v) = v mod 256 ^ n"
proof (induction n arbitrary: v)
  case 0
  then show ?case by simp
next
  case (Suc n)
  have u: "uint (word_of_int (v mod 256) :: byte) = v mod 256"
    by (simp add: uint_word_of_int take_bit_eq_mod)
  from Suc.prems have "0 \<le> v div 256" by simp
  from Suc.IH [OF this] have "from_bytes_le (le_bytes n (v div 256)) = v div 256 mod 256 ^ n" .
  moreover have "v mod (256 * 256 ^ n) = 256 * (v div 256 mod 256 ^ n) + v mod 256"
    by (rule zmod_zmult2_eq) simp
  ultimately show ?case
    by (simp add: u)
qed





lemma to_bytes_le_Inr:
  assumes "to_bytes_le n k = Inr b"
  shows "0 \<le> n \<and> n < 256 ^ k \<and> b = le_bytes k n \<and> length b = k \<and> from_bytes_le b = n"
proof -
  from assms have r: "0 \<le> n" "n < 256 ^ k" and b: "b = le_bytes k n"
    by (auto simp: to_bytes_le_def split: if_splits)
  from r have "from_bytes_le b = n"
    by (simp add: b from_bytes_le_le_bytes)
  with r b show ?thesis by simp
qed

lemma example_num_vout_eq:
  "num_vout example_collab example_tx_view =
     Inr (1, example_tx_view\<lparr>tx_stream := \<lparr>buf = buf (tx_stream example_tx_view), pos = 163\<rparr>,
                             cache_num_vout_offset := Some 162, cache_num_vout := Some 1\<rparr>)"
  by code_simp

lemma example_num_vout:
  "\<exists>t1. num_vout example_collab example_tx_view = Inr (1, t1)"
  using example_num_vout_eq by blast

lemma plain_input_vout: "raw_vout \<lparr>buf = plain_input, pos = 0\<rparr> = 1"
  by (simp add: raw_vout_def plain_input_def)

lemma issuance_input_vout: "raw_vout \<lparr>buf = issuance_input, pos = 0\<rparr> = 0x80000001"
  by (simp add: raw_vout_def issuance_input_def)

lemma issuance_input_amount:
  "skip_commitment \<lparr>buf = issuance_input, pos = 105\<rparr> = Inr (1, \<lparr>buf = issuance_input, pos = 106\<rparr>)"
  by (simp add: skip_commitment_in_range issuance_input_def commitment_len_def nth_append)

lemma issuance_input_token:
  "skip_commitment \<lparr>buf = issuance_input, pos = 106\<rparr> = Inr (9, \<lparr>buf = issuance_input, pos = 115\<rparr>)"
  by (simp add: skip_commitment_in_range issuance_input_def commitment_len_def nth_append)

lemmas example_defs = example_collab_def example_view_def example_check_def
  example_scope_value_def example_digest_def example_output_def

lemma example_single_returns: "\<exists>m v'. sighash_segwit_data example_collab example_view 1 [0x51] (IntValue 5) 3 = Inr (m, v')"
  by (simp add: sighash_segwit_data_def sighash_head_def sighash_outputs_def pset_vin_def
      hash_issuances_def to_bytes_le_def to_bytes_be_def example_defs Let_def)

lemma hash_outputs_state:
  "hash_outputs E v = Inr (d, s) \<Longrightarrow> s = v\<lparr>cache_hash_outputs := Some d\<rparr>"
  by (cases "cache_hash_outputs v")
     (auto simp: hash_outputs_def Let_def bind_err_eq_Inr)

lemma hash_rangeproofs_state:
  "hash_rangeproofs E v = Inr (d, s) \<Longrightarrow> s = v\<lparr>cache_hash_rangeproofs := Some d\<rparr>"
  by (cases "cache_hash_rangeproofs v")
     (auto simp: hash_rangeproofs_def Let_def bind_err_eq_Inr)

lemma hash_outputs_transfer:
  assumes "num_outputs v' = num_outputs v" and "cache_hash_outputs v' = cache_hash_outputs v"
  shows "hash_outputs E v = Inl e \<Longrightarrow> hash_outputs E v' = Inl e"
    and "hash_outputs E v = Inr (d, s) \<Longrightarrow>
           hash_outputs E v' = Inr (d, v'\<lparr>cache_hash_outputs := Some d\<rparr>)"
proof -
  have l: "outputs_loop E v' js [] = outputs_loop E v js []" for js
    by (rule outputs_loop_cong [OF assms(1)])
  show "hash_outputs E v = Inl e \<Longrightarrow> hash_outputs E v' = Inl e"
    using assms(2)
    by (cases "cache_hash_outputs v"; cases "outputs_loop E v [0..<num_outputs v] []")
       (simp_all add: hash_outputs_def Let_def l assms(1))
  show "hash_outputs E v = Inr (d, s) \<Longrightarrow>
           hash_outputs E v' = Inr (d, v'\<lparr>cache_hash_outputs := Some d\<rparr>)"
    using assms(2)
    by (cases "cache_hash_outputs v"; cases "outputs_loop E v [0..<num_outputs v] []")
       (auto simp: hash_outputs_def Let_def l assms(1))
qed

lemma hash_rangeproofs_transfer:
  assumes "num_outputs v' = num_outputs v"
    and "cache_hash_rangeproofs v' = cache_hash_rangeproofs v"
  shows "hash_rangeproofs E v = Inl e \<Longrightarrow> hash_rangeproofs E v' = Inl e"
    and "hash_rangeproofs E v = Inr (d, s) \<Longrightarrow>
           hash_rangeproofs E v' = Inr (d, v'\<lparr>cache_hash_rangeproofs := Some d\<rparr>)"
proof -
  have l: "rangeproofs_loop E v' js [] = rangeproofs_loop E v js []" for js
    by (rule rangeproofs_loop_cong [OF assms(1)])
  show "hash_rangeproofs E v = Inl e \<Longrightarrow> hash_rangeproofs E v' = Inl e"
    using assms(2)
    by (cases "cache_hash_rangeproofs v"; cases "rangeproofs_loop E v [0..<num_outputs v] []")
       (simp_all add: hash_rangeproofs_def Let_def l assms(1))
  show "hash_rangeproofs E v = Inr (d, s) \<Longrightarrow>
           hash_rangeproofs E v' = Inr (d, v'\<lparr>cache_hash_rangeproofs := Some d\<rparr>)"
    using assms(2)
    by (cases "cache_hash_rangeproofs v"; cases "rangeproofs_loop E v [0..<num_outputs v] []")
       (auto simp: hash_rangeproofs_def Let_def l assms(1))
qed

lemma sighash_segwit_data_unfold:
  assumes "LSIGHASH_check E sighash = Inr (sh, acp, rp)"
    and "0 \<le> idx" and "idx < int (num_inputs v)"
    and "sighash_head E v idx spk val sh acp = Inr (h, vh)"
  shows "sighash_segwit_data E v idx spk val sighash =
           bind_err (sighash_outputs E vh idx sh rp h) (\<lambda>(h2, v2).
           bind_err (to_bytes_le (locktime v2) 4) (\<lambda>b1.
           bind_err (to_bytes_le sighash 4) (\<lambda>b2.
           Inr ((h2 @ b1) @ b2, v2))))"
  using assms by (simp add: sighash_segwit_data_def)


lemma example_head_single_1:
  "\<exists>h vh. sighash_head example_collab example_view 1 [0x51] (IntValue 5) 3 False = Inr (h, vh)"
proof -
  have "case sighash_head example_collab example_view 1 [0x51] (IntValue 5) 3 False of
          Inl e \<Rightarrow> False | Inr r \<Rightarrow> True"
    by code_simp
  then show ?thesis by (auto split: sum.splits)
qed

lemma example_head_single_0:
  "\<exists>h vh. sighash_head example_collab example_view 0 [0x51] (IntValue 5) 3 False = Inr (h, vh)"
proof -
  have "case sighash_head example_collab example_view 0 [0x51] (IntValue 5) 3 False of
          Inl e \<Rightarrow> False | Inr r \<Rightarrow> True"
    by code_simp
  then show ?thesis by (auto split: sum.splits)
qed

lemma example_head_none_0:
  "\<exists>h vh. sighash_head example_collab example_view 0 [0x51] (IntValue 5) 2 False = Inr (h, vh)"
proof -
  have "case sighash_head example_collab example_view 0 [0x51] (IntValue 5) 2 False of
          Inl e \<Rightarrow> False | Inr r \<Rightarrow> True"
    by code_simp
  then show ?thesis by (auto split: sum.splits)
qed

lemma example_head_all_0:
  "\<exists>h vh. sighash_head example_collab example_view 0 [0x51] (IntValue 5) 1 False = Inr (h, vh)"
proof -
  have "case sighash_head example_collab example_view 0 [0x51] (IntValue 5) 1 False of
          Inl e \<Rightarrow> False | Inr r \<Rightarrow> True"
    by code_simp
  then show ?thesis by (auto split: sum.splits)
qed

lemma example_constants:
  "SIGHASH_NONE example_collab = 2" "SIGHASH_SINGLE example_collab = 3"
  "SIGHASH_ALL example_collab = 1" "sha256 example_collab = example_digest"
  "num_outputs example_view = 1" "num_inputs example_view = 2"
  by (simp_all add: example_collab_def example_view_def)

lemma example_locktime: "to_bytes_le (locktime example_view) 4 = Inr [0, 0, 0, 0]"
  by code_simp

lemma example_flag_bytes:
  "to_bytes_le 1 4 = Inr [0x01, 0, 0, 0]" "to_bytes_le 2 4 = Inr [0x02, 0, 0, 0]"
  "to_bytes_le 3 4 = Inr [0x03, 0, 0, 0]" "to_bytes_le 0x41 4 = Inr [0x41, 0, 0, 0]"
  "to_bytes_le 0x43 4 = Inr [0x43, 0, 0, 0]"
  by code_simp+

lemma example_checks:
  "LSIGHASH_check example_collab 1 = Inr (1, False, False)"
  "LSIGHASH_check example_collab 2 = Inr (2, False, False)"
  "LSIGHASH_check example_collab 3 = Inr (3, False, False)"
  "LSIGHASH_check example_collab 0x41 = Inr (1, False, True)"
  "LSIGHASH_check example_collab 0x43 = Inr (3, False, True)"
  by code_simp+

lemma example_blinded_vout:
  "blinded_vout example_collab example_view 0 = Inr (example_output 0)"
  by (simp add: blinded_vout_def pset_output_def example_collab_def example_view_def)

lemma example_output_0:
  "serialize (example_output 0) = [0x00, 0xA0]"
  "witness_serialize (example_output 0) = [0x00, 0xB0]"
  by (simp_all add: example_output_def)

lemma example_hash_outputs:
  "hash_outputs example_collab example_view =
     Inr (example_digest [0x00, 0xA0],
          example_view\<lparr>cache_hash_outputs := Some (example_digest [0x00, 0xA0])\<rparr>)"
  by code_simp

lemma example_hash_rangeproofs:
  "hash_rangeproofs example_collab example_view =
     Inr (example_digest [0x00, 0xC0, 0x00, 0xD0],
          example_view\<lparr>cache_hash_rangeproofs := Some (example_digest [0x00, 0xC0, 0x00, 0xD0])\<rparr>)"
  by code_simp



lemma example_default_flags:
  "SIGHASH_ALL example_collab OR LSIGHASH_RANGEPROOF example_collab = 0x41"
  by code_simp

lemma example_rangeproof_returns:
  "\<exists>m v'. sighash_segwit_data example_collab example_view 0 [0x51] (IntValue 5) 0x41 = Inr (m, v')"
proof -
  have "case sighash_segwit_data example_collab example_view 0 [0x51] (IntValue 5) 0x41 of
          Inl e \<Rightarrow> False | Inr r \<Rightarrow> True"
    by code_simp
  then show ?thesis by (auto split: sum.splits)
qed

lemma example_default_returns:
  "\<exists>d v'. sighash_segwit example_collab example_view 0 [0x51] (IntValue 5) None = Inr (d, v')"
proof -
  from example_rangeproof_returns obtain m v' where
    "sighash_segwit_data example_collab example_view 0 [0x51] (IntValue 5) 0x41 = Inr (m, v')"
    by (elim exE)
  then have "sighash_segwit example_collab example_view 0 [0x51] (IntValue 5) None =
      Inr (sha256 example_collab (sha256 example_collab m), v')"
    by (simp add: sighash_segwit_def example_default_flags)
  then show ?thesis by (intro exI)
qed

lemma example_default_check:
  "LSIGHASH_check example_collab (SIGHASH_ALL example_collab OR LSIGHASH_RANGEPROOF example_collab) =
     Inr (1, False, True)"
  by code_simp

section \<open>The outputs term of the signature hash\<close>

text \<open>
  C1. Whenever \<open>sighash_segwit\<close> returns, the data it has hashed is what lines 172 to 192
  fed, then the outputs term, then the locktime and the flags in 4 bytes each. The outputs
  term is: for a base type that is neither NONE nor SINGLE, the SHA-256 of
  \<open>hash_outputs()\<close>, followed by the SHA-256 of \<open>hash_rangeproofs()\<close> if the RANGEPROOF
  bit is set; for the base type SINGLE with \<open>input_index < num_outputs\<close>, the double
  SHA-256 of the serialised output \<open>input_index\<close>, followed by the double SHA-256 of its
  serialised witness if the RANGEPROOF bit is set; in every other case 32 zero bytes.
  And the method does return that: once the index is within bounds, the flags decode, the
  first part has run and the locktime and the flags fit 4 bytes, each of the cases returns
  the data with its outputs term when the digests or the output it reads are there, and
  raises their error when they are not. The view returned has the output digests stored
  that the call computed.
\<close>

theorem sighash_segwit_outputs_term:
  "(sighash_segwit_data E v idx spk val sighash = Inr (m, v') \<longrightarrow>
     (\<exists>sh acp rp h vh lt fl ot.
        LSIGHASH_check E sighash = Inr (sh, acp, rp) \<and>
        sighash_head E v idx spk val sh acp = Inr (h, vh) \<and>
        to_bytes_le (locktime v) 4 = Inr lt \<and>
        to_bytes_le sighash 4 = Inr fl \<and>
        m = h @ ot @ lt @ fl \<and>
        (if sh \<noteq> SIGHASH_NONE E \<and> sh \<noteq> SIGHASH_SINGLE E then
           \<exists>ho s. hash_outputs E v = Inr (ho, s) \<and>
             (if rp then \<exists>hr s'. hash_rangeproofs E v = Inr (hr, s') \<and>
                            ot = sha256 E ho @ sha256 E hr
              else ot = sha256 E ho)
         else if sh = SIGHASH_SINGLE E \<and> idx < int (num_outputs v) then
           \<exists>out. blinded_vout E v idx = Inr out \<and>
             ot = sha256 E (sha256 E (serialize out)) @
                    (if rp then sha256 E (sha256 E (witness_serialize out)) else [])
         else ot = replicate 32 0x00))) \<and>
   (LSIGHASH_check E sighash = Inr (sh, acp, rp) \<and>
    0 \<le> idx \<and> idx < int (num_inputs v) \<and>
    sighash_head E v idx spk val sh acp = Inr (h, vh) \<and>
    to_bytes_le (locktime v) 4 = Inr lt \<and>
    to_bytes_le sighash 4 = Inr fl \<longrightarrow>
      (sh \<noteq> SIGHASH_NONE E \<and> sh \<noteq> SIGHASH_SINGLE E \<longrightarrow>
         (\<forall>e. hash_outputs E v = Inl e \<longrightarrow>
            sighash_segwit_data E v idx spk val sighash = Inl e) \<and>
         (\<forall>ho s. hash_outputs E v = Inr (ho, s) \<longrightarrow>
            (\<not> rp \<longrightarrow>
               sighash_segwit_data E v idx spk val sighash =
                 Inr (h @ sha256 E ho @ lt @ fl, vh\<lparr>cache_hash_outputs := Some ho\<rparr>)) \<and>
            (rp \<longrightarrow>
               (\<forall>e. hash_rangeproofs E v = Inl e \<longrightarrow>
                  sighash_segwit_data E v idx spk val sighash = Inl e) \<and>
               (\<forall>hr s'. hash_rangeproofs E v = Inr (hr, s') \<longrightarrow>
                  sighash_segwit_data E v idx spk val sighash =
                    Inr (h @ sha256 E ho @ sha256 E hr @ lt @ fl,
                         vh\<lparr>cache_hash_outputs := Some ho,
                            cache_hash_rangeproofs := Some hr\<rparr>))))) \<and>
      ((sh = SIGHASH_NONE E \<or> sh = SIGHASH_SINGLE E) \<and>
       sh = SIGHASH_SINGLE E \<and> idx < int (num_outputs v) \<longrightarrow>
         (\<forall>e. blinded_vout E v idx = Inl e \<longrightarrow>
            sighash_segwit_data E v idx spk val sighash = Inl e) \<and>
         (\<forall>out. blinded_vout E v idx = Inr out \<longrightarrow>
            sighash_segwit_data E v idx spk val sighash =
              Inr (h @ sha256 E (sha256 E (serialize out)) @
                     (if rp then sha256 E (sha256 E (witness_serialize out)) else []) @
                     lt @ fl, vh))) \<and>
      ((sh = SIGHASH_NONE E \<or> sh = SIGHASH_SINGLE E) \<and>
       \<not> (sh = SIGHASH_SINGLE E \<and> idx < int (num_outputs v)) \<longrightarrow>
         sighash_segwit_data E v idx spk val sighash =
           Inr (h @ replicate 32 0x00 @ lt @ fl, vh)))"
proof (rule conjI)
  show "sighash_segwit_data E v idx spk val sighash = Inr (m, v') \<longrightarrow>
     (\<exists>sh acp rp h vh lt fl ot.
        LSIGHASH_check E sighash = Inr (sh, acp, rp) \<and>
        sighash_head E v idx spk val sh acp = Inr (h, vh) \<and>
        to_bytes_le (locktime v) 4 = Inr lt \<and>
        to_bytes_le sighash 4 = Inr fl \<and>
        m = h @ ot @ lt @ fl \<and>
        (if sh \<noteq> SIGHASH_NONE E \<and> sh \<noteq> SIGHASH_SINGLE E then
           \<exists>ho s. hash_outputs E v = Inr (ho, s) \<and>
             (if rp then \<exists>hr s'. hash_rangeproofs E v = Inr (hr, s') \<and>
                            ot = sha256 E ho @ sha256 E hr
              else ot = sha256 E ho)
         else if sh = SIGHASH_SINGLE E \<and> idx < int (num_outputs v) then
           \<exists>out. blinded_vout E v idx = Inr out \<and>
             ot = sha256 E (sha256 E (serialize out)) @
                    (if rp then sha256 E (sha256 E (witness_serialize out)) else [])
         else ot = replicate 32 0x00))"
    by (rule impI) (rule sighash_segwit_data_decomp)
next
  show "LSIGHASH_check E sighash = Inr (sh, acp, rp) \<and>
    0 \<le> idx \<and> idx < int (num_inputs v) \<and>
    sighash_head E v idx spk val sh acp = Inr (h, vh) \<and>
    to_bytes_le (locktime v) 4 = Inr lt \<and>
    to_bytes_le sighash 4 = Inr fl \<longrightarrow>
      (sh \<noteq> SIGHASH_NONE E \<and> sh \<noteq> SIGHASH_SINGLE E \<longrightarrow>
         (\<forall>e. hash_outputs E v = Inl e \<longrightarrow>
            sighash_segwit_data E v idx spk val sighash = Inl e) \<and>
         (\<forall>ho s. hash_outputs E v = Inr (ho, s) \<longrightarrow>
            (\<not> rp \<longrightarrow>
               sighash_segwit_data E v idx spk val sighash =
                 Inr (h @ sha256 E ho @ lt @ fl, vh\<lparr>cache_hash_outputs := Some ho\<rparr>)) \<and>
            (rp \<longrightarrow>
               (\<forall>e. hash_rangeproofs E v = Inl e \<longrightarrow>
                  sighash_segwit_data E v idx spk val sighash = Inl e) \<and>
               (\<forall>hr s'. hash_rangeproofs E v = Inr (hr, s') \<longrightarrow>
                  sighash_segwit_data E v idx spk val sighash =
                    Inr (h @ sha256 E ho @ sha256 E hr @ lt @ fl,
                         vh\<lparr>cache_hash_outputs := Some ho,
                            cache_hash_rangeproofs := Some hr\<rparr>))))) \<and>
      ((sh = SIGHASH_NONE E \<or> sh = SIGHASH_SINGLE E) \<and>
       sh = SIGHASH_SINGLE E \<and> idx < int (num_outputs v) \<longrightarrow>
         (\<forall>e. blinded_vout E v idx = Inl e \<longrightarrow>
            sighash_segwit_data E v idx spk val sighash = Inl e) \<and>
         (\<forall>out. blinded_vout E v idx = Inr out \<longrightarrow>
            sighash_segwit_data E v idx spk val sighash =
              Inr (h @ sha256 E (sha256 E (serialize out)) @
                     (if rp then sha256 E (sha256 E (witness_serialize out)) else []) @
                     lt @ fl, vh))) \<and>
      ((sh = SIGHASH_NONE E \<or> sh = SIGHASH_SINGLE E) \<and>
       \<not> (sh = SIGHASH_SINGLE E \<and> idx < int (num_outputs v)) \<longrightarrow>
         sighash_segwit_data E v idx spk val sighash =
           Inr (h @ replicate 32 0x00 @ lt @ fl, vh))"
  proof (rule impI, elim conjE)
    assume chk: "LSIGHASH_check E sighash = Inr (sh, acp, rp)"
      and rng: "0 \<le> idx" "idx < int (num_inputs v)"
      and hd: "sighash_head E v idx spk val sh acp = Inr (h, vh)"
      and lt: "to_bytes_le (locktime v) 4 = Inr lt"
      and fl: "to_bytes_le sighash 4 = Inr fl"
    note u = sighash_segwit_data_unfold [OF chk rng hd]
    from sighash_head_Inr [OF hd] obtain t c
      where vh: "vh = v\<lparr>tx := t, cache_hash_issuances := c\<rparr>" by (elim exE)
    then have same: "num_outputs vh = num_outputs v"
      "cache_hash_outputs vh = cache_hash_outputs v"
      "cache_hash_rangeproofs vh = cache_hash_rangeproofs v"
      and ltv: "to_bytes_le (locktime vh) 4 = Inr lt"
      using lt by simp_all
    have bv: "blinded_vout E vh idx = blinded_vout E v idx"
      by (rule blinded_vout_cong [OF same(1)])
    have all: "sighash_segwit_data E v idx spk val sighash = Inl e"
      if "sh \<noteq> SIGHASH_NONE E \<and> sh \<noteq> SIGHASH_SINGLE E" "hash_outputs E v = Inl e" for e
      using that hash_outputs_transfer(1) [OF same(1) same(2) that(2)]
      by (simp add: u sighash_outputs_def)
    have all_no_rp: "sighash_segwit_data E v idx spk val sighash =
          Inr (h @ sha256 E ho @ lt @ fl, vh\<lparr>cache_hash_outputs := Some ho\<rparr>)"
      if "sh \<noteq> SIGHASH_NONE E \<and> sh \<noteq> SIGHASH_SINGLE E" "hash_outputs E v = Inr (ho, s)"
        "\<not> rp" for ho s
      using that hash_outputs_transfer(2) [OF same(1) same(2) that(2)] ltv fl
      by (simp add: u sighash_outputs_def)
    have all_rp_err: "sighash_segwit_data E v idx spk val sighash = Inl e"
      if "sh \<noteq> SIGHASH_NONE E \<and> sh \<noteq> SIGHASH_SINGLE E" "hash_outputs E v = Inr (ho, s)"
        "rp" "hash_rangeproofs E v = Inl e" for ho s e
    proof -
      have "hash_rangeproofs E (vh\<lparr>cache_hash_outputs := Some ho\<rparr>) = Inl e"
        by (rule hash_rangeproofs_transfer(1) [OF _ _ that(4)]) (simp_all add: same)
      with that hash_outputs_transfer(2) [OF same(1) same(2) that(2)] show ?thesis
        by (simp add: u sighash_outputs_def)
    qed
    have all_rp: "sighash_segwit_data E v idx spk val sighash =
          Inr (h @ sha256 E ho @ sha256 E hr @ lt @ fl,
               vh\<lparr>cache_hash_outputs := Some ho, cache_hash_rangeproofs := Some hr\<rparr>)"
      if "sh \<noteq> SIGHASH_NONE E \<and> sh \<noteq> SIGHASH_SINGLE E" "hash_outputs E v = Inr (ho, s)"
        "rp" "hash_rangeproofs E v = Inr (hr, s')" for ho s hr s'
    proof -
      have "hash_rangeproofs E (vh\<lparr>cache_hash_outputs := Some ho\<rparr>) =
          Inr (hr, vh\<lparr>cache_hash_outputs := Some ho, cache_hash_rangeproofs := Some hr\<rparr>)"
        by (rule hash_rangeproofs_transfer(2) [OF _ _ that(4)]) (simp_all add: same)
      with that hash_outputs_transfer(2) [OF same(1) same(2) that(2)] ltv fl show ?thesis
        by (simp add: u sighash_outputs_def)
    qed
    have single_err: "sighash_segwit_data E v idx spk val sighash = Inl e"
      if "sh = SIGHASH_SINGLE E" "idx < int (num_outputs v)" "blinded_vout E v idx = Inl e" for e
      using that by (simp add: u sighash_outputs_def bv same(1))
    have single: "sighash_segwit_data E v idx spk val sighash =
          Inr (h @ sha256 E (sha256 E (serialize out)) @
                 (if rp then sha256 E (sha256 E (witness_serialize out)) else []) @
                 lt @ fl, vh)"
      if "sh = SIGHASH_SINGLE E" "idx < int (num_outputs v)" "blinded_vout E v idx = Inr out"
      for out
      using that ltv fl by (simp add: u sighash_outputs_def bv same(1))
    have zero: "sighash_segwit_data E v idx spk val sighash =
          Inr (h @ replicate 32 0x00 @ lt @ fl, vh)"
      if "sh = SIGHASH_NONE E \<or> sh = SIGHASH_SINGLE E"
        "\<not> (sh = SIGHASH_SINGLE E \<and> idx < int (num_outputs v))"
      using that ltv fl by (auto simp: u sighash_outputs_def same(1))
    show "(sh \<noteq> SIGHASH_NONE E \<and> sh \<noteq> SIGHASH_SINGLE E \<longrightarrow>
         (\<forall>e. hash_outputs E v = Inl e \<longrightarrow>
            sighash_segwit_data E v idx spk val sighash = Inl e) \<and>
         (\<forall>ho s. hash_outputs E v = Inr (ho, s) \<longrightarrow>
            (\<not> rp \<longrightarrow>
               sighash_segwit_data E v idx spk val sighash =
                 Inr (h @ sha256 E ho @ lt @ fl, vh\<lparr>cache_hash_outputs := Some ho\<rparr>)) \<and>
            (rp \<longrightarrow>
               (\<forall>e. hash_rangeproofs E v = Inl e \<longrightarrow>
                  sighash_segwit_data E v idx spk val sighash = Inl e) \<and>
               (\<forall>hr s'. hash_rangeproofs E v = Inr (hr, s') \<longrightarrow>
                  sighash_segwit_data E v idx spk val sighash =
                    Inr (h @ sha256 E ho @ sha256 E hr @ lt @ fl,
                         vh\<lparr>cache_hash_outputs := Some ho,
                            cache_hash_rangeproofs := Some hr\<rparr>))))) \<and>
      ((sh = SIGHASH_NONE E \<or> sh = SIGHASH_SINGLE E) \<and>
       sh = SIGHASH_SINGLE E \<and> idx < int (num_outputs v) \<longrightarrow>
         (\<forall>e. blinded_vout E v idx = Inl e \<longrightarrow>
            sighash_segwit_data E v idx spk val sighash = Inl e) \<and>
         (\<forall>out. blinded_vout E v idx = Inr out \<longrightarrow>
            sighash_segwit_data E v idx spk val sighash =
              Inr (h @ sha256 E (sha256 E (serialize out)) @
                     (if rp then sha256 E (sha256 E (witness_serialize out)) else []) @
                     lt @ fl, vh))) \<and>
      ((sh = SIGHASH_NONE E \<or> sh = SIGHASH_SINGLE E) \<and>
       \<not> (sh = SIGHASH_SINGLE E \<and> idx < int (num_outputs v)) \<longrightarrow>
         sighash_segwit_data E v idx spk val sighash =
           Inr (h @ replicate 32 0x00 @ lt @ fl, vh))"
    proof (intro conjI impI allI)
      fix e assume "sh \<noteq> SIGHASH_NONE E \<and> sh \<noteq> SIGHASH_SINGLE E" "hash_outputs E v = Inl e"
      then show "sighash_segwit_data E v idx spk val sighash = Inl e" by (rule all)
    next
      fix ho s
      assume "sh \<noteq> SIGHASH_NONE E \<and> sh \<noteq> SIGHASH_SINGLE E" "hash_outputs E v = Inr (ho, s)"
        "\<not> rp"
      then show "sighash_segwit_data E v idx spk val sighash =
          Inr (h @ sha256 E ho @ lt @ fl, vh\<lparr>cache_hash_outputs := Some ho\<rparr>)"
        by (rule all_no_rp)
    next
      fix ho s e
      assume "sh \<noteq> SIGHASH_NONE E \<and> sh \<noteq> SIGHASH_SINGLE E" "hash_outputs E v = Inr (ho, s)"
        "rp" "hash_rangeproofs E v = Inl e"
      then show "sighash_segwit_data E v idx spk val sighash = Inl e" by (rule all_rp_err)
    next
      fix ho s hr s'
      assume "sh \<noteq> SIGHASH_NONE E \<and> sh \<noteq> SIGHASH_SINGLE E" "hash_outputs E v = Inr (ho, s)"
        "rp" "hash_rangeproofs E v = Inr (hr, s')"
      then show "sighash_segwit_data E v idx spk val sighash =
          Inr (h @ sha256 E ho @ sha256 E hr @ lt @ fl,
               vh\<lparr>cache_hash_outputs := Some ho, cache_hash_rangeproofs := Some hr\<rparr>)"
        by (rule all_rp)
    next
      fix e
      assume "(sh = SIGHASH_NONE E \<or> sh = SIGHASH_SINGLE E) \<and>
          sh = SIGHASH_SINGLE E \<and> idx < int (num_outputs v)" "blinded_vout E v idx = Inl e"
      then show "sighash_segwit_data E v idx spk val sighash = Inl e"
        using single_err by blast
    next
      fix out
      assume "(sh = SIGHASH_NONE E \<or> sh = SIGHASH_SINGLE E) \<and>
          sh = SIGHASH_SINGLE E \<and> idx < int (num_outputs v)" "blinded_vout E v idx = Inr out"
      then show "sighash_segwit_data E v idx spk val sighash =
              Inr (h @ sha256 E (sha256 E (serialize out)) @
                     (if rp then sha256 E (sha256 E (witness_serialize out)) else []) @
                     lt @ fl, vh)"
        using single by blast
    next
      assume "(sh = SIGHASH_NONE E \<or> sh = SIGHASH_SINGLE E) \<and>
          \<not> (sh = SIGHASH_SINGLE E \<and> idx < int (num_outputs v))"
      then show "sighash_segwit_data E v idx spk val sighash =
           Inr (h @ replicate 32 0x00 @ lt @ fl, vh)"
        using zero by blast
    qed
  qed
qed

text \<open>
  The scenario of two inputs and one output: signing input 1 with SINGLE, where there is no
  output 1, and signing input 0 with SINGLE, with SINGLE and RANGEPROOF, with NONE, with
  ALL, and with ALL and RANGEPROOF.
\<close>

theorem sighash_segwit_outputs_term_witness:
  "(\<exists>m v' h vh. sighash_segwit_data example_collab example_view 1 [0x51] (IntValue 5) 3 = Inr (m, v') \<and>
      sighash_head example_collab example_view 1 [0x51] (IntValue 5) 3 False = Inr (h, vh) \<and>
      m = h @ replicate 32 0x00 @ [0, 0, 0, 0] @ [3, 0, 0, 0]) \<and>
   (\<exists>h vh. sighash_head example_collab example_view 1 [0x51] (IntValue 5) 3 False = Inr (h, vh) \<and>
      sighash_segwit_data example_collab example_view 1 [0x51] (IntValue 5) 3 =
        Inr (h @ replicate 32 0x00 @ [0, 0, 0, 0] @ [0x03, 0, 0, 0], vh)) \<and>
   (\<exists>h vh. sighash_head example_collab example_view 0 [0x51] (IntValue 5) 3 False = Inr (h, vh) \<and>
      sighash_segwit_data example_collab example_view 0 [0x51] (IntValue 5) 3 =
        Inr (h @ example_digest (example_digest [0x00, 0xA0]) @ [0, 0, 0, 0] @ [0x03, 0, 0, 0], vh)) \<and>
   (\<exists>h vh. sighash_head example_collab example_view 0 [0x51] (IntValue 5) 3 False = Inr (h, vh) \<and>
      sighash_segwit_data example_collab example_view 0 [0x51] (IntValue 5) 0x43 =
        Inr (h @ example_digest (example_digest [0x00, 0xA0]) @
               example_digest (example_digest [0x00, 0xB0]) @ [0, 0, 0, 0] @ [0x43, 0, 0, 0], vh)) \<and>
   (\<exists>h vh. sighash_head example_collab example_view 0 [0x51] (IntValue 5) 2 False = Inr (h, vh) \<and>
      sighash_segwit_data example_collab example_view 0 [0x51] (IntValue 5) 2 =
        Inr (h @ replicate 32 0x00 @ [0, 0, 0, 0] @ [0x02, 0, 0, 0], vh)) \<and>
   (\<exists>h vh. sighash_head example_collab example_view 0 [0x51] (IntValue 5) 1 False = Inr (h, vh) \<and>
      sighash_segwit_data example_collab example_view 0 [0x51] (IntValue 5) 1 =
        Inr (h @ example_digest (example_digest [0x00, 0xA0]) @ [0, 0, 0, 0] @ [0x01, 0, 0, 0],
             vh\<lparr>cache_hash_outputs := Some (example_digest [0x00, 0xA0])\<rparr>)) \<and>
   (\<exists>h vh. sighash_head example_collab example_view 0 [0x51] (IntValue 5) 1 False = Inr (h, vh) \<and>
      sighash_segwit_data example_collab example_view 0 [0x51] (IntValue 5) 0x41 =
        Inr (h @ example_digest (example_digest [0x00, 0xA0]) @
               example_digest (example_digest [0x00, 0xC0, 0x00, 0xD0]) @
               [0, 0, 0, 0] @ [0x41, 0, 0, 0],
             vh\<lparr>cache_hash_outputs := Some (example_digest [0x00, 0xA0]),
                cache_hash_rangeproofs := Some (example_digest [0x00, 0xC0, 0x00, 0xD0])\<rparr>))"
proof -
  note c = example_constants
  have r0: "(0::int) \<le> 0 \<and> (0::int) < int (num_inputs example_view)"
    and r1: "(0::int) \<le> 1 \<and> (1::int) < int (num_inputs example_view)"
    by (simp_all add: c)
  have 0: "\<exists>m v' h vh. sighash_segwit_data example_collab example_view 1 [0x51] (IntValue 5) 3 = Inr (m, v') \<and>
        sighash_head example_collab example_view 1 [0x51] (IntValue 5) 3 False = Inr (h, vh) \<and>
        m = h @ replicate 32 0x00 @ [0, 0, 0, 0] @ [3, 0, 0, 0]"
  proof -
    from example_single_returns obtain m v' where
      r: "sighash_segwit_data example_collab example_view 1 [0x51] (IntValue 5) 3 = Inr (m, v')"
      by blast
    from sighash_segwit_outputs_term [where E = example_collab and v = example_view and idx = 1
        and spk = "[0x51]" and val = "IntValue 5" and sighash = 3 and m = m and v' = v',
        THEN conjunct1, THEN mp, OF r] obtain sh acp rp h vh lt fl ot where
      c: "LSIGHASH_check example_collab 3 = Inr (sh, acp, rp)"
      and h: "sighash_head example_collab example_view 1 [0x51] (IntValue 5) sh acp = Inr (h, vh)"
      and lt: "to_bytes_le (locktime example_view) 4 = Inr lt"
      and fl: "to_bytes_le 3 4 = Inr fl"
      and m: "m = h @ ot @ lt @ fl"
      and ot: "(if sh \<noteq> SIGHASH_NONE example_collab \<and> sh \<noteq> SIGHASH_SINGLE example_collab then
           \<exists>ho s. hash_outputs example_collab example_view = Inr (ho, s) \<and>
             (if rp then \<exists>hr s'. hash_rangeproofs example_collab example_view = Inr (hr, s') \<and>
                            ot = sha256 example_collab ho @ sha256 example_collab hr
              else ot = sha256 example_collab ho)
         else if sh = SIGHASH_SINGLE example_collab \<and> 1 < int (num_outputs example_view) then
           \<exists>out. blinded_vout example_collab example_view 1 = Inr out \<and>
             ot = sha256 example_collab (sha256 example_collab (serialize out)) @
                    (if rp then sha256 example_collab (sha256 example_collab (witness_serialize out)) else [])
         else ot = replicate 32 0x00)"
      by blast
    from c have sh: "sh = 3" "acp = False" "rp = False"
      by (simp_all add: example_defs Let_def)
    from ot sh have "ot = replicate 32 0x00" by (simp add: example_defs)
    moreover from lt have "lt = [0, 0, 0, 0]"
      by (simp add: to_bytes_le_def example_defs eval_nat_numeral)
    moreover from fl have "fl = [3, 0, 0, 0]"
      by (simp add: to_bytes_le_def eval_nat_numeral)
    ultimately show ?thesis using r h m sh by auto
  qed
  have 1: "\<exists>h vh. sighash_head example_collab example_view 1 [0x51] (IntValue 5) 3 False = Inr (h, vh) \<and>
      sighash_segwit_data example_collab example_view 1 [0x51] (IntValue 5) 3 =
        Inr (h @ replicate 32 0x00 @ [0, 0, 0, 0] @ [0x03, 0, 0, 0], vh)"
  proof -
    from example_head_single_1 obtain h vh where
      hd: "sighash_head example_collab example_view 1 [0x51] (IntValue 5) 3 False = Inr (h, vh)"
      by (elim exE)
    note t = sighash_segwit_outputs_term [where E = example_collab and v = example_view
        and idx = 1 and spk = "[0x51]" and val = "IntValue 5" and sighash = 3 and sh = 3
        and acp = False and rp = False and h = h and vh = vh and lt = "[0, 0, 0, 0]"
        and fl = "[0x03, 0, 0, 0]", THEN conjunct2, THEN mp,
        OF conjI [OF example_checks(3) conjI [OF conjunct1 [OF r1] conjI [OF conjunct2 [OF r1]
          conjI [OF hd conjI [OF example_locktime example_flag_bytes(3)]]]]],
        THEN conjunct2, THEN conjunct2, THEN mp]
    have "sighash_segwit_data example_collab example_view 1 [0x51] (IntValue 5) 3 =
        Inr (h @ replicate 32 0x00 @ [0, 0, 0, 0] @ [0x03, 0, 0, 0], vh)"
      by (rule t) (simp add: c)
    with hd show ?thesis by (intro exI conjI)
  qed
  have 2: "\<exists>h vh. sighash_head example_collab example_view 0 [0x51] (IntValue 5) 3 False = Inr (h, vh) \<and>
      sighash_segwit_data example_collab example_view 0 [0x51] (IntValue 5) 3 =
        Inr (h @ example_digest (example_digest [0x00, 0xA0]) @ [0, 0, 0, 0] @ [0x03, 0, 0, 0], vh)"
  proof -
    from example_head_single_0 obtain h vh where
      hd: "sighash_head example_collab example_view 0 [0x51] (IntValue 5) 3 False = Inr (h, vh)"
      by (elim exE)
    note t = sighash_segwit_outputs_term [where E = example_collab and v = example_view
        and idx = 0 and spk = "[0x51]" and val = "IntValue 5" and sighash = 3 and sh = 3
        and acp = False and rp = False and h = h and vh = vh and lt = "[0, 0, 0, 0]"
        and fl = "[0x03, 0, 0, 0]", THEN conjunct2, THEN mp,
        OF conjI [OF example_checks(3) conjI [OF conjunct1 [OF r0] conjI [OF conjunct2 [OF r0]
          conjI [OF hd conjI [OF example_locktime example_flag_bytes(3)]]]]],
        THEN conjunct2, THEN conjunct1, THEN mp, THEN conjunct2, THEN spec, THEN mp,
        OF _ example_blinded_vout]
    have "sighash_segwit_data example_collab example_view 0 [0x51] (IntValue 5) 3 =
        Inr (h @ sha256 example_collab (sha256 example_collab (serialize (example_output 0))) @
               (if False then sha256 example_collab
                   (sha256 example_collab (witness_serialize (example_output 0))) else []) @
               [0, 0, 0, 0] @ [0x03, 0, 0, 0], vh)"
      by (rule t) (simp add: c)
    then have "sighash_segwit_data example_collab example_view 0 [0x51] (IntValue 5) 3 =
        Inr (h @ example_digest (example_digest [0x00, 0xA0]) @ [0, 0, 0, 0] @ [0x03, 0, 0, 0], vh)"
      by (simp add: c example_output_0)
    with hd show ?thesis by (intro exI conjI)
  qed
  have 3: "\<exists>h vh. sighash_head example_collab example_view 0 [0x51] (IntValue 5) 3 False = Inr (h, vh) \<and>
      sighash_segwit_data example_collab example_view 0 [0x51] (IntValue 5) 0x43 =
        Inr (h @ example_digest (example_digest [0x00, 0xA0]) @
               example_digest (example_digest [0x00, 0xB0]) @ [0, 0, 0, 0] @ [0x43, 0, 0, 0], vh)"
  proof -
    from example_head_single_0 obtain h vh where
      hd: "sighash_head example_collab example_view 0 [0x51] (IntValue 5) 3 False = Inr (h, vh)"
      by (elim exE)
    note t = sighash_segwit_outputs_term [where E = example_collab and v = example_view
        and idx = 0 and spk = "[0x51]" and val = "IntValue 5" and sighash = "0x43" and sh = 3
        and acp = False and rp = True and h = h and vh = vh and lt = "[0, 0, 0, 0]"
        and fl = "[0x43, 0, 0, 0]", THEN conjunct2, THEN mp,
        OF conjI [OF example_checks(5) conjI [OF conjunct1 [OF r0] conjI [OF conjunct2 [OF r0]
          conjI [OF hd conjI [OF example_locktime example_flag_bytes(5)]]]]],
        THEN conjunct2, THEN conjunct1, THEN mp, THEN conjunct2, THEN spec, THEN mp,
        OF _ example_blinded_vout]
    have "sighash_segwit_data example_collab example_view 0 [0x51] (IntValue 5) 0x43 =
        Inr (h @ sha256 example_collab (sha256 example_collab (serialize (example_output 0))) @
               (if True then sha256 example_collab
                   (sha256 example_collab (witness_serialize (example_output 0))) else []) @
               [0, 0, 0, 0] @ [0x43, 0, 0, 0], vh)"
      by (rule t) (simp add: c)
    then have "sighash_segwit_data example_collab example_view 0 [0x51] (IntValue 5) 0x43 =
        Inr (h @ example_digest (example_digest [0x00, 0xA0]) @
               example_digest (example_digest [0x00, 0xB0]) @ [0, 0, 0, 0] @ [0x43, 0, 0, 0], vh)"
      by (simp add: c example_output_0)
    with hd show ?thesis by (intro exI conjI)
  qed
  have 4: "\<exists>h vh. sighash_head example_collab example_view 0 [0x51] (IntValue 5) 2 False = Inr (h, vh) \<and>
      sighash_segwit_data example_collab example_view 0 [0x51] (IntValue 5) 2 =
        Inr (h @ replicate 32 0x00 @ [0, 0, 0, 0] @ [0x02, 0, 0, 0], vh)"
  proof -
    from example_head_none_0 obtain h vh where
      hd: "sighash_head example_collab example_view 0 [0x51] (IntValue 5) 2 False = Inr (h, vh)"
      by (elim exE)
    note t = sighash_segwit_outputs_term [where E = example_collab and v = example_view
        and idx = 0 and spk = "[0x51]" and val = "IntValue 5" and sighash = 2 and sh = 2
        and acp = False and rp = False and h = h and vh = vh and lt = "[0, 0, 0, 0]"
        and fl = "[0x02, 0, 0, 0]", THEN conjunct2, THEN mp,
        OF conjI [OF example_checks(2) conjI [OF conjunct1 [OF r0] conjI [OF conjunct2 [OF r0]
          conjI [OF hd conjI [OF example_locktime example_flag_bytes(2)]]]]],
        THEN conjunct2, THEN conjunct2, THEN mp]
    have "sighash_segwit_data example_collab example_view 0 [0x51] (IntValue 5) 2 =
        Inr (h @ replicate 32 0x00 @ [0, 0, 0, 0] @ [0x02, 0, 0, 0], vh)"
      by (rule t) (simp add: c)
    with hd show ?thesis by (intro exI conjI)
  qed
  have 5: "\<exists>h vh. sighash_head example_collab example_view 0 [0x51] (IntValue 5) 1 False = Inr (h, vh) \<and>
      sighash_segwit_data example_collab example_view 0 [0x51] (IntValue 5) 1 =
        Inr (h @ example_digest (example_digest [0x00, 0xA0]) @ [0, 0, 0, 0] @ [0x01, 0, 0, 0],
             vh\<lparr>cache_hash_outputs := Some (example_digest [0x00, 0xA0])\<rparr>)"
  proof -
    from example_head_all_0 obtain h vh where
      hd: "sighash_head example_collab example_view 0 [0x51] (IntValue 5) 1 False = Inr (h, vh)"
      by (elim exE)
    note t = sighash_segwit_outputs_term [where E = example_collab and v = example_view
        and idx = 0 and spk = "[0x51]" and val = "IntValue 5" and sighash = 1 and sh = 1
        and acp = False and rp = False and h = h and vh = vh and lt = "[0, 0, 0, 0]"
        and fl = "[0x01, 0, 0, 0]", THEN conjunct2, THEN mp,
        OF conjI [OF example_checks(1) conjI [OF conjunct1 [OF r0] conjI [OF conjunct2 [OF r0]
          conjI [OF hd conjI [OF example_locktime example_flag_bytes(1)]]]]],
        THEN conjunct1, THEN mp, THEN conjunct2, THEN spec, THEN spec, THEN mp,
        OF _ example_hash_outputs, THEN conjunct1, THEN mp]
    have "sighash_segwit_data example_collab example_view 0 [0x51] (IntValue 5) 1 =
        Inr (h @ sha256 example_collab (example_digest [0x00, 0xA0]) @ [0, 0, 0, 0] @
               [0x01, 0, 0, 0],
             vh\<lparr>cache_hash_outputs := Some (example_digest [0x00, 0xA0])\<rparr>)"
      by (rule t) (simp_all add: c)
    then have "sighash_segwit_data example_collab example_view 0 [0x51] (IntValue 5) 1 =
        Inr (h @ example_digest (example_digest [0x00, 0xA0]) @ [0, 0, 0, 0] @ [0x01, 0, 0, 0],
             vh\<lparr>cache_hash_outputs := Some (example_digest [0x00, 0xA0])\<rparr>)"
      by (simp only: c)
    with hd show ?thesis by (intro exI conjI)
  qed
  have 6: "\<exists>h vh. sighash_head example_collab example_view 0 [0x51] (IntValue 5) 1 False = Inr (h, vh) \<and>
      sighash_segwit_data example_collab example_view 0 [0x51] (IntValue 5) 0x41 =
        Inr (h @ example_digest (example_digest [0x00, 0xA0]) @
               example_digest (example_digest [0x00, 0xC0, 0x00, 0xD0]) @
               [0, 0, 0, 0] @ [0x41, 0, 0, 0],
             vh\<lparr>cache_hash_outputs := Some (example_digest [0x00, 0xA0]),
                cache_hash_rangeproofs := Some (example_digest [0x00, 0xC0, 0x00, 0xD0])\<rparr>)"
  proof -
    from example_head_all_0 obtain h vh where
      hd: "sighash_head example_collab example_view 0 [0x51] (IntValue 5) 1 False = Inr (h, vh)"
      by (elim exE)
    note t = sighash_segwit_outputs_term [where E = example_collab and v = example_view
        and idx = 0 and spk = "[0x51]" and val = "IntValue 5" and sighash = "0x41" and sh = 1
        and acp = False and rp = True and h = h and vh = vh and lt = "[0, 0, 0, 0]"
        and fl = "[0x41, 0, 0, 0]", THEN conjunct2, THEN mp,
        OF conjI [OF example_checks(4) conjI [OF conjunct1 [OF r0] conjI [OF conjunct2 [OF r0]
          conjI [OF hd conjI [OF example_locktime example_flag_bytes(4)]]]]],
        THEN conjunct1, THEN mp, THEN conjunct2, THEN spec, THEN spec, THEN mp,
        OF _ example_hash_outputs, THEN conjunct2, THEN mp, THEN conjunct2,
        THEN spec, THEN spec, THEN mp, OF _ _ example_hash_rangeproofs]
    have "sighash_segwit_data example_collab example_view 0 [0x51] (IntValue 5) 0x41 =
        Inr (h @ sha256 example_collab (example_digest [0x00, 0xA0]) @
               sha256 example_collab (example_digest [0x00, 0xC0, 0x00, 0xD0]) @
               [0, 0, 0, 0] @ [0x41, 0, 0, 0],
             vh\<lparr>cache_hash_outputs := Some (example_digest [0x00, 0xA0]),
                cache_hash_rangeproofs := Some (example_digest [0x00, 0xC0, 0x00, 0xD0])\<rparr>)"
      by (rule t) (simp_all add: c)
    then have "sighash_segwit_data example_collab example_view 0 [0x51] (IntValue 5) 0x41 =
        Inr (h @ example_digest (example_digest [0x00, 0xA0]) @
               example_digest (example_digest [0x00, 0xC0, 0x00, 0xD0]) @
               [0, 0, 0, 0] @ [0x41, 0, 0, 0],
             vh\<lparr>cache_hash_outputs := Some (example_digest [0x00, 0xA0]),
                cache_hash_rangeproofs := Some (example_digest [0x00, 0xC0, 0x00, 0xD0])\<rparr>)"
      by (simp only: c)
    with hd show ?thesis by (intro exI conjI)
  qed
  from 0 1 2 3 4 5 6 show ?thesis by (intro conjI)
qed

section \<open>The value of the spent output in the signature hash\<close>



section \<open>The default flags of the signature hash\<close>

text \<open>
  C9. Called without the \<open>sighash\<close> argument, \<open>sighash_segwit\<close> is the call with the
  flags \<open>ALL | RANGEPROOF\<close>. Where the flag decoder reports for that value a base type
  that is neither NONE nor SINGLE and a set RANGEPROOF bit, the digest returned is the double
  SHA-256 of data whose outputs term is the SHA-256 of \<open>hash_outputs()\<close> followed by the
  SHA-256 of \<open>hash_rangeproofs()\<close>, and whose last 4 bytes are \<open>ALL | RANGEPROOF\<close>
  in little endian.
\<close>

theorem sighash_segwit_default_flags:
  "sighash_segwit E v idx spk val None =
     sighash_segwit E v idx spk val (Some (SIGHASH_ALL E OR LSIGHASH_RANGEPROOF E)) \<and>
   (sighash_segwit E v idx spk val None = Inr (d, v') \<and>
    LSIGHASH_check E (SIGHASH_ALL E OR LSIGHASH_RANGEPROOF E) = Inr (sh, acp, True) \<and>
    sh \<noteq> SIGHASH_NONE E \<and> sh \<noteq> SIGHASH_SINGLE E \<longrightarrow>
      (\<exists>m h vh ho s hr s' lt fl.
         sighash_segwit_data E v idx spk val (SIGHASH_ALL E OR LSIGHASH_RANGEPROOF E) = Inr (m, v') \<and>
         d = sha256 E (sha256 E m) \<and>
         sighash_head E v idx spk val sh acp = Inr (h, vh) \<and>
         hash_outputs E v = Inr (ho, s) \<and>
         hash_rangeproofs E v = Inr (hr, s') \<and>
         to_bytes_le (locktime v) 4 = Inr lt \<and>
         fl = le_bytes 4 (SIGHASH_ALL E OR LSIGHASH_RANGEPROOF E) \<and>
         length fl = 4 \<and>
         from_bytes_le fl = SIGHASH_ALL E OR LSIGHASH_RANGEPROOF E \<and>
         m = h @ sha256 E ho @ sha256 E hr @ lt @ fl))"
proof (intro conjI impI)
  show "sighash_segwit E v idx spk val None =
     sighash_segwit E v idx spk val (Some (SIGHASH_ALL E OR LSIGHASH_RANGEPROOF E))"
    by (simp add: sighash_segwit_def)
next
  let ?f = "SIGHASH_ALL E OR LSIGHASH_RANGEPROOF E"
  assume a: "sighash_segwit E v idx spk val None = Inr (d, v') \<and>
    LSIGHASH_check E ?f = Inr (sh, acp, True) \<and>
    sh \<noteq> SIGHASH_NONE E \<and> sh \<noteq> SIGHASH_SINGLE E"
  then have ret: "sighash_segwit E v idx spk val None = Inr (d, v')"
    and chk: "LSIGHASH_check E ?f = Inr (sh, acp, True)"
    and sh: "sh \<noteq> SIGHASH_NONE E \<and> sh \<noteq> SIGHASH_SINGLE E"
    by simp_all
  from ret have "bind_err (sighash_segwit_data E v idx spk val ?f)
      (\<lambda>(h, v'). Inr (sha256 E (sha256 E h), v')) = Inr (d, v')"
    by (simp add: sighash_segwit_def)
  then obtain m where data: "sighash_segwit_data E v idx spk val ?f = Inr (m, v')"
    and d: "d = sha256 E (sha256 E m)"
    by (cases "sighash_segwit_data E v idx spk val ?f") auto
  from sighash_segwit_data_decomp [OF data]
  show "\<exists>m h vh ho s hr s' lt fl.
         sighash_segwit_data E v idx spk val ?f = Inr (m, v') \<and>
         d = sha256 E (sha256 E m) \<and>
         sighash_head E v idx spk val sh acp = Inr (h, vh) \<and>
         hash_outputs E v = Inr (ho, s) \<and>
         hash_rangeproofs E v = Inr (hr, s') \<and>
         to_bytes_le (locktime v) 4 = Inr lt \<and>
         fl = le_bytes 4 ?f \<and>
         length fl = 4 \<and>
         from_bytes_le fl = ?f \<and>
         m = h @ sha256 E ho @ sha256 E hr @ lt @ fl"
  proof (elim exE conjE)
    fix sh' acp' rp' h vh lt fl ot
    assume c': "LSIGHASH_check E ?f = Inr (sh', acp', rp')"
      and hd: "sighash_head E v idx spk val sh' acp' = Inr (h, vh)"
      and lt: "to_bytes_le (locktime v) 4 = Inr lt"
      and fl: "to_bytes_le ?f 4 = Inr fl"
      and m: "m = h @ ot @ lt @ fl"
      and ot: "if sh' \<noteq> SIGHASH_NONE E \<and> sh' \<noteq> SIGHASH_SINGLE E then
         \<exists>ho s. hash_outputs E v = Inr (ho, s) \<and>
           (if rp' then \<exists>hr s'. hash_rangeproofs E v = Inr (hr, s') \<and>
                          ot = sha256 E ho @ sha256 E hr
            else ot = sha256 E ho)
       else if sh' = SIGHASH_SINGLE E \<and> idx < int (num_outputs v) then
         \<exists>out. blinded_vout E v idx = Inr out \<and>
           ot = sha256 E (sha256 E (serialize out)) @
                  (if rp' then sha256 E (sha256 E (witness_serialize out)) else [])
       else ot = replicate 32 0x00"
    from c' chk have eq: "sh' = sh" "acp' = acp" "rp' = True" by simp_all
    from ot sh eq obtain ho s hr s' where ho: "hash_outputs E v = Inr (ho, s)"
      and hr: "hash_rangeproofs E v = Inr (hr, s')"
      and ot': "ot = sha256 E ho @ sha256 E hr"
      by auto
    from to_bytes_le_Inr [OF fl] have fl': "fl = le_bytes 4 ?f" "length fl = 4"
      "from_bytes_le fl = ?f" by blast+
    from m ot' have m': "m = h @ sha256 E ho @ sha256 E hr @ lt @ fl" by simp
    from hd eq have hd': "sighash_head E v idx spk val sh acp = Inr (h, vh)" by simp
    from data d hd' ho hr lt fl' m' show ?thesis
      by (intro exI conjI)
  qed
qed

theorem sighash_segwit_default_flags_witness:
  "\<exists>d v' m h ho s hr s'.
     sighash_segwit example_collab example_view 0 [0x51] (IntValue 5) None = Inr (d, v') \<and>
     sighash_segwit_data example_collab example_view 0 [0x51] (IntValue 5) 0x41 = Inr (m, v') \<and>
     d = example_digest (example_digest m) \<and>
     hash_outputs example_collab example_view = Inr (ho, s) \<and>
     hash_rangeproofs example_collab example_view = Inr (hr, s') \<and>
     m = h @ example_digest ho @ example_digest hr @ [0, 0, 0, 0] @ [0x41, 0, 0, 0]"
proof -
  from example_default_returns obtain d v' where
    r: "sighash_segwit example_collab example_view 0 [0x51] (IntValue 5) None = Inr (d, v')"
    by (elim exE)
  note f = example_default_flags
  have n: "(1::int) \<noteq> SIGHASH_NONE example_collab \<and> 1 \<noteq> SIGHASH_SINGLE example_collab"
    by (simp add: example_collab_def)
  have s: "sha256 example_collab = example_digest"
    by (simp add: example_collab_def)
  have l: "le_bytes 4 0x41 = [0x41, 0, 0, 0]"
    by code_simp
  have z: "to_bytes_le (locktime example_view) 4 = Inr [0, 0, 0, 0]"
    by code_simp
  note t = sighash_segwit_default_flags [of example_collab example_view 0 "[0x51]" "IntValue 5"
      d v' 1 False, THEN conjunct2, THEN mp, OF conjI [OF r conjI [OF example_default_check n]]]
  from t show ?thesis
  proof (elim exE conjE)
    fix m h vh ho s0 hr s1 lt fl
    assume data: "sighash_segwit_data example_collab example_view 0 [0x51] (IntValue 5)
        (SIGHASH_ALL example_collab OR LSIGHASH_RANGEPROOF example_collab) = Inr (m, v')"
      and d: "d = sha256 example_collab (sha256 example_collab m)"
      and ho: "hash_outputs example_collab example_view = Inr (ho, s0)"
      and hr: "hash_rangeproofs example_collab example_view = Inr (hr, s1)"
      and lt: "to_bytes_le (locktime example_view) 4 = Inr lt"
      and fl: "fl = le_bytes 4 (SIGHASH_ALL example_collab OR LSIGHASH_RANGEPROOF example_collab)"
      and m: "m = h @ sha256 example_collab ho @ sha256 example_collab hr @ lt @ fl"
    from lt z have lt': "lt = [0, 0, 0, 0]" by simp
    from fl f l have fl': "fl = [0x41, 0, 0, 0]" by simp
    from data f have data': "sighash_segwit_data example_collab example_view 0 [0x51] (IntValue 5)
        0x41 = Inr (m, v')" by simp
    from d s have d': "d = example_digest (example_digest m)" by simp
    from m s lt' fl' have m': "m = h @ example_digest ho @ example_digest hr @ [0, 0, 0, 0] @
        [0x41, 0, 0, 0]" by simp
    from r data' d' ho hr m' show ?thesis
      by (intro exI conjI)
  qed
qed

section \<open>The commitment codec and the input skip\<close>

text \<open>
  C5. \<open>skip_commitment\<close> reads one tag byte. With the tag \<open>0x00\<close> it consumes 1 byte
  in all, with the tag \<open>0x01\<close> 9 bytes, with any other tag 33 bytes; it returns that count
  and leaves the stream right after the bytes consumed. It fails exactly when the read of
  the tag byte is short, that is when the position is at or beyond the end of the data.
\<close>

theorem skip_commitment_consumes:
  "skip_commitment s =
     (if length (buf s) \<le> pos s then Inl AssertionError
      else if buf s ! pos s = 0x00 then Inr (1, s\<lparr>pos := pos s + 1\<rparr>)
      else if buf s ! pos s = 0x01 then Inr (9, s\<lparr>pos := pos s + 9\<rparr>)
      else Inr (33, s\<lparr>pos := pos s + 33\<rparr>))"
proof (cases "length (buf s) \<le> pos s")
  case True
  then show ?thesis by (simp add: skip_commitment_at_end)
next
  case False
  then have "pos s < length (buf s)" by simp
  from skip_commitment_in_range [OF this] False show ?thesis
    by (simp add: commitment_len_def)
qed

theorem skip_commitment_consumes_witness:
  "skip_commitment \<lparr>buf = [0x07, 0x00, 0x07], pos = 1\<rparr> = Inr (1, \<lparr>buf = [0x07, 0x00, 0x07], pos = 2\<rparr>) \<and>
   skip_commitment \<lparr>buf = [0x01, 0, 0, 0, 0, 0, 0, 0, 5, 0x07], pos = 0\<rparr> =
     Inr (9, \<lparr>buf = [0x01, 0, 0, 0, 0, 0, 0, 0, 5, 0x07], pos = 9\<rparr>) \<and>
   skip_commitment \<lparr>buf = 0x09 # replicate 32 0x33, pos = 0\<rparr> =
     Inr (33, \<lparr>buf = 0x09 # replicate 32 0x33, pos = 33\<rparr>) \<and>
   skip_commitment \<lparr>buf = [0x01], pos = 1\<rparr> = Inl AssertionError"
  using skip_commitment_consumes [of "\<lparr>buf = [0x07, 0x00, 0x07], pos = 1\<rparr>"]
    skip_commitment_consumes [of "\<lparr>buf = [0x01, 0, 0, 0, 0, 0, 0, 0, 5, 0x07], pos = 0\<rparr>"]
    skip_commitment_consumes [of "\<lparr>buf = 0x09 # replicate 32 0x33, pos = 0\<rparr>"]
    skip_commitment_consumes [of "\<lparr>buf = [0x01], pos = 1\<rparr>"]
  by simp

text \<open>
  C4. For an input whose 4-byte \<open>vout\<close> field is present, \<open>_skip_input\<close> consumes and
  reports 41 bytes when the field is \<open>0xFFFFFFFF\<close> or has bit 31 clear. When the field is
  not \<open>0xFFFFFFFF\<close> and has bit 31 set, it skips 64 more bytes and two commitments: it
  reports and consumes \<open>41 + 64\<close> bytes plus the two counts \<open>skip_commitment\<close> returns,
  and it fails where one of the two \<open>skip_commitment\<close> calls fails.
\<close>

theorem skip_input_consumes:
  assumes "pos s + 36 \<le> length (buf s)"
  shows "(raw_vout s = 0xFFFFFFFF \<or> \<not> bit (raw_vout s) 31 \<longrightarrow>
            skip_input s = Inr (41, s\<lparr>pos := pos s + 41\<rparr>)) \<and>
         (raw_vout s \<noteq> 0xFFFFFFFF \<and> bit (raw_vout s) 31 \<longrightarrow>
            (\<forall>n1 s5 n2 s6.
               skip_commitment (s\<lparr>pos := pos s + (41 + 64)\<rparr>) = Inr (n1, s5) \<longrightarrow>
               skip_commitment s5 = Inr (n2, s6) \<longrightarrow>
               skip_input s = Inr (41 + 64 + n1 + n2, s6) \<and>
               s6 = s\<lparr>pos := pos s + (41 + 64 + n1 + n2)\<rparr>) \<and>
            (\<forall>e. skip_commitment (s\<lparr>pos := pos s + (41 + 64)\<rparr>) = Inl e \<longrightarrow>
               skip_input s = Inl e) \<and>
            (\<forall>n1 s5 e. skip_commitment (s\<lparr>pos := pos s + (41 + 64)\<rparr>) = Inr (n1, s5) \<longrightarrow>
               skip_commitment s5 = Inl e \<longrightarrow> skip_input s = Inl e))"
proof (intro conjI impI allI)
  assume "raw_vout s = 0xFFFFFFFF \<or> \<not> bit (raw_vout s) 31"
  then show "skip_input s = Inr (41, s\<lparr>pos := pos s + 41\<rparr>)"
    by (auto simp: skip_input_head [OF assms])
next
  fix n1 s5 n2 s6
  assume v: "raw_vout s \<noteq> 0xFFFFFFFF \<and> bit (raw_vout s) 31"
    and c1: "skip_commitment (s\<lparr>pos := pos s + (41 + 64)\<rparr>) = Inr (n1, s5)"
    and c2: "skip_commitment s5 = Inr (n2, s6)"
  from v c1 c2 show "skip_input s = Inr (41 + 64 + n1 + n2, s6)"
    by (simp add: skip_input_head [OF assms])
  from skip_commitment_Inr [OF c1] have "s5 = s\<lparr>pos := pos s + 105 + n1\<rparr>"
    by simp
  with skip_commitment_Inr [OF c2]
  show "s6 = s\<lparr>pos := pos s + (41 + 64 + n1 + n2)\<rparr>"
    by (simp add: add.assoc)
next
  fix e
  assume "raw_vout s \<noteq> 0xFFFFFFFF \<and> bit (raw_vout s) 31"
    and "skip_commitment (s\<lparr>pos := pos s + (41 + 64)\<rparr>) = Inl e"
  then show "skip_input s = Inl e"
    by (simp add: skip_input_head [OF assms])
next
  fix n1 s5 e
  assume "raw_vout s \<noteq> 0xFFFFFFFF \<and> bit (raw_vout s) 31"
    and "skip_commitment (s\<lparr>pos := pos s + (41 + 64)\<rparr>) = Inr (n1, s5)"
    and "skip_commitment s5 = Inl e"
  then show "skip_input s = Inl e"
    by (simp add: skip_input_head [OF assms])
qed

theorem skip_input_consumes_witness:
  "raw_vout \<lparr>buf = plain_input, pos = 0\<rparr> = 0x00000001 \<and>
   skip_input \<lparr>buf = plain_input, pos = 0\<rparr> = Inr (41, \<lparr>buf = plain_input, pos = 41\<rparr>) \<and>
   raw_vout \<lparr>buf = issuance_input, pos = 0\<rparr> = 0x80000001 \<and>
   skip_input \<lparr>buf = issuance_input, pos = 0\<rparr> =
     Inr (41 + 64 + 1 + 9, \<lparr>buf = issuance_input, pos = 41 + 64 + 1 + 9\<rparr>)"
proof -
  have p: "pos \<lparr>buf = plain_input, pos = 0\<rparr> + 36 \<le> length (buf \<lparr>buf = plain_input, pos = 0\<rparr>)"
    by (simp add: plain_input_def)
  have i: "pos \<lparr>buf = issuance_input, pos = 0\<rparr> + 36 \<le> length (buf \<lparr>buf = issuance_input, pos = 0\<rparr>)"
    by (simp add: issuance_input_def)
  from skip_input_consumes [OF p] plain_input_vout
  have 1: "skip_input \<lparr>buf = plain_input, pos = 0\<rparr> = Inr (41, \<lparr>buf = plain_input, pos = 41\<rparr>)"
    by simp
  from skip_input_consumes [OF i] issuance_input_vout issuance_input_amount issuance_input_token
  have 2: "skip_input \<lparr>buf = issuance_input, pos = 0\<rparr> =
     Inr (41 + 64 + 1 + 9, \<lparr>buf = issuance_input, pos = 41 + 64 + 1 + 9\<rparr>)"
    by simp
  from 1 2 plain_input_vout issuance_input_vout show ?thesis by simp
qed


section \<open>Index checks\<close>

text \<open>
  C3. An index \<open>i < 0\<close> or \<open>i \<ge> count\<close>, for any count and so for the count 0, makes
  \<open>vin(i)\<close> and \<open>vout(i)\<close> raise the invalid-index error, a \<open>PSBTError\<close>, in the
  transaction stream view and in the PSET view. In the stream view \<open>vout\<close> compares with
  \<open>num_vout\<close>, which it reads from the stream when \<open>i \<ge> 0\<close>; in the PSET view \<open>vout\<close>
  raises through the output accessor.
\<close>

theorem invalid_index_raises:
  "(i < 0 \<or> int (num_vin t) \<le> i \<longrightarrow> tx_vin E t i = Inl (PSBTError ''Invalid input index'')) \<and>
   (i < 0 \<longrightarrow> tx_vout E t i = Inl (PSBTError ''Invalid input index'')) \<and>
   (\<forall>n t1. num_vout E t = Inr (n, t1) \<and> int n \<le> i \<longrightarrow>
      tx_vout E t i = Inl (PSBTError ''Invalid input index'')) \<and>
   (i < 0 \<or> int (num_inputs v) \<le> i \<longrightarrow> pset_vin E v i = Inl (PSBTError ''Invalid input index'')) \<and>
   (i < 0 \<or> int (num_outputs v) \<le> i \<longrightarrow> pset_vout E v i = Inl (PSBTError ''Invalid output index''))"
proof (intro conjI impI allI)
  assume "i < 0 \<or> int (num_vin t) \<le> i"
  then show "tx_vin E t i = Inl (PSBTError ''Invalid input index'')"
    by (auto simp: tx_vin_def)
next
  assume "i < 0"
  then show "tx_vout E t i = Inl (PSBTError ''Invalid input index'')"
    by (simp add: tx_vout_def)
next
  fix n t1
  assume "num_vout E t = Inr (n, t1) \<and> int n \<le> i"
  then show "tx_vout E t i = Inl (PSBTError ''Invalid input index'')"
    by (simp add: tx_vout_def)
next
  assume "i < 0 \<or> int (num_inputs v) \<le> i"
  then show "pset_vin E v i = Inl (PSBTError ''Invalid input index'')"
    by (auto simp: pset_vin_def)
next
  assume "i < 0 \<or> int (num_outputs v) \<le> i"
  then show "pset_vout E v i = Inl (PSBTError ''Invalid output index'')"
    by (auto simp: pset_vout_def pset_output_def)
qed

theorem invalid_index_raises_witness:
  "tx_vin example_collab example_tx_view 2 = Inl (PSBTError ''Invalid input index'') \<and>
   tx_vin example_collab (example_tx_view\<lparr>num_vin := 0\<rparr>) 0 = Inl (PSBTError ''Invalid input index'') \<and>
   tx_vout example_collab example_tx_view (- 1) = Inl (PSBTError ''Invalid input index'') \<and>
   tx_vout example_collab example_tx_view 1 = Inl (PSBTError ''Invalid input index'') \<and>
   pset_vin example_collab example_view 2 = Inl (PSBTError ''Invalid input index'') \<and>
   pset_vin example_collab example_view (- 1) = Inl (PSBTError ''Invalid input index'') \<and>
   pset_vout example_collab example_view 1 = Inl (PSBTError ''Invalid output index'') \<and>
   pset_vout example_collab (example_view\<lparr>num_outputs := 0\<rparr>) 0 = Inl (PSBTError ''Invalid output index'')"
proof -
  from example_num_vout obtain t1 where
    n: "num_vout example_collab example_tx_view = Inr (1, t1)" ..
  have a: "(2::int) < 0 \<or> int (num_vin example_tx_view) \<le> 2"
    by (simp add: example_tx_view_def)
  have b: "(0::int) < 0 \<or> int (num_vin (example_tx_view\<lparr>num_vin := 0\<rparr>)) \<le> 0"
    by simp
  have c: "(2::int) < 0 \<or> int (num_inputs example_view) \<le> 2"
    by (simp add: example_view_def)
  have d: "(1::int) < 0 \<or> int (num_outputs example_view) \<le> 1"
    by (simp add: example_view_def)
  have e: "(0::int) < 0 \<or> int (num_outputs (example_view\<lparr>num_outputs := 0\<rparr>)) \<le> 0"
    by simp
  from invalid_index_raises [of 2 example_tx_view example_collab example_view] a c
  have 1: "tx_vin example_collab example_tx_view 2 = Inl (PSBTError ''Invalid input index'')"
    and 5: "pset_vin example_collab example_view 2 = Inl (PSBTError ''Invalid input index'')"
    by blast+
  from invalid_index_raises [of 0 "example_tx_view\<lparr>num_vin := 0\<rparr>" example_collab
      "example_view\<lparr>num_outputs := 0\<rparr>"] b e
  have 2: "tx_vin example_collab (example_tx_view\<lparr>num_vin := 0\<rparr>) 0 = Inl (PSBTError ''Invalid input index'')"
    and 8: "pset_vout example_collab (example_view\<lparr>num_outputs := 0\<rparr>) 0 = Inl (PSBTError ''Invalid output index'')"
    by blast+
  from invalid_index_raises [of "- 1" example_tx_view example_collab example_view]
  have 3: "tx_vout example_collab example_tx_view (- 1) = Inl (PSBTError ''Invalid input index'')"
    and 6: "pset_vin example_collab example_view (- 1) = Inl (PSBTError ''Invalid input index'')"
    by simp_all
  from invalid_index_raises [of 1 example_tx_view example_collab example_view] n d
  have 4: "tx_vout example_collab example_tx_view 1 = Inl (PSBTError ''Invalid input index'')"
    and 7: "pset_vout example_collab example_view 1 = Inl (PSBTError ''Invalid output index'')"
    by simp_all
  from 1 2 3 4 5 6 7 8 show ?thesis by simp
qed

text \<open>
  C10. \<open>sighash_segwit\<close> checks \<open>input_index\<close> before it decodes the flags: an index out
  of bounds raises the invalid-index error whatever the flag decoder would do with the
  flags, and the decoder's own error is what an index within bounds gets.
\<close>

theorem sighash_segwit_index_first:
  "(input_index < 0 \<or> int (num_inputs v) \<le> input_index \<longrightarrow>
      sighash_segwit E v input_index script_pubkey val sighash_arg =
        Inl (PSBTError ''Invalid input index'')) \<and>
   (0 \<le> input_index \<and> input_index < int (num_inputs v) \<and> LSIGHASH_check E f = Inl e \<longrightarrow>
      sighash_segwit E v input_index script_pubkey val (Some f) = Inl e)"
  by (auto simp: sighash_segwit_def sighash_segwit_data_def Let_def)

theorem sighash_segwit_index_first_witness:
  "LSIGHASH_check example_collab 0x04 = Inl (ValueError ''Invalid SIGHASH type'') \<and>
   sighash_segwit example_collab example_view 2 [0x51] (IntValue 5) (Some 0x04) =
     Inl (PSBTError ''Invalid input index'') \<and>
   sighash_segwit example_collab example_view (- 1) [0x51] (IntValue 5) (Some 0x04) =
     Inl (PSBTError ''Invalid input index'') \<and>
   sighash_segwit example_collab example_view 1 [0x51] (IntValue 5) (Some 0x04) =
     Inl (ValueError ''Invalid SIGHASH type'')"
proof -
  have c: "LSIGHASH_check example_collab 0x04 = Inl (ValueError ''Invalid SIGHASH type'')"
    by (simp add: example_collab_def example_check_def Let_def)
  have n: "num_inputs example_view = 2" by (simp add: example_view_def)
  from sighash_segwit_index_first [of 2 example_view example_collab "[0x51]" "IntValue 5" "Some 0x04"] n
  have 1: "sighash_segwit example_collab example_view 2 [0x51] (IntValue 5) (Some 0x04) =
     Inl (PSBTError ''Invalid input index'')" by simp
  from sighash_segwit_index_first [of "- 1" example_view example_collab "[0x51]" "IntValue 5" "Some 0x04"]
  have 2: "sighash_segwit example_collab example_view (- 1) [0x51] (IntValue 5) (Some 0x04) =
     Inl (PSBTError ''Invalid input index'')" by simp
  from sighash_segwit_index_first [of 1 example_view example_collab "[0x51]" "IntValue 5" "Some 0"
      "0x04" "ValueError ''Invalid SIGHASH type''"] n c
  have 3: "sighash_segwit example_collab example_view 1 [0x51] (IntValue 5) (Some 0x04) =
     Inl (ValueError ''Invalid SIGHASH type'')" by simp
  from c 1 2 3 show ?thesis by simp
qed

section \<open>The issuance digest\<close>

text \<open>
  C6. \<open>hash_issuances()\<close> returns the SHA-256 of \<open>num_inputs\<close> zero bytes, whatever the
  transaction holds. It is memoised: with an empty cache, as \<open>clear_cache\<close> leaves it, the
  call computes the digest and stores it in the view; with a stored digest the call returns
  what is stored, whatever the hash function, and leaves the view as it is. So the second
  call returns the digest of the first.
\<close>

theorem hash_issuances_memoized:
  "(cache_hash_issuances v = None \<or>
    cache_hash_issuances v = Some (sha256 E (replicate (num_inputs v) 0x00)) \<longrightarrow>
      fst (hash_issuances E v) = sha256 E (replicate (num_inputs v) 0x00) \<and>
      hash_issuances E (snd (hash_issuances E v)) =
        (sha256 E (replicate (num_inputs v) 0x00), snd (hash_issuances E v)) \<and>
      num_inputs (snd (hash_issuances E v)) = num_inputs v \<and>
      fst (hash_issuances E (v\<lparr>tx := t\<rparr>)) = sha256 E (replicate (num_inputs v) 0x00) \<and>
      cache_hash_issuances (snd (hash_issuances E v)) =
        Some (sha256 E (replicate (num_inputs v) 0x00))) \<and>
   cache_hash_issuances (clear_cache v) = None \<and>
   (cache_hash_issuances v = None \<longrightarrow>
      hash_issuances E v =
        (sha256 E (replicate (num_inputs v) 0x00),
         v\<lparr>cache_hash_issuances := Some (sha256 E (replicate (num_inputs v) 0x00))\<rparr>)) \<and>
   (\<forall>c. cache_hash_issuances v = Some c \<longrightarrow>
      hash_issuances E v = (c, v) \<and> (\<forall>f. hash_issuances (E\<lparr>sha256 := f\<rparr>) v = (c, v)))"
  by (auto simp: hash_issuances_def Let_def clear_cache_def)

theorem hash_issuances_memoized_witness:
  "hash_issuances example_collab (clear_cache example_view) =
     (example_digest [0x00, 0x00],
      (clear_cache example_view)\<lparr>cache_hash_issuances := Some (example_digest [0x00, 0x00])\<rparr>) \<and>
   hash_issuances example_collab
     ((clear_cache example_view)\<lparr>cache_hash_issuances := Some (example_digest [0x00, 0x00])\<rparr>) =
     (example_digest [0x00, 0x00],
      (clear_cache example_view)\<lparr>cache_hash_issuances := Some (example_digest [0x00, 0x00])\<rparr>) \<and>
   hash_issuances example_collab (example_view\<lparr>cache_hash_issuances := Some [0x07]\<rparr>) =
     ([0x07], example_view\<lparr>cache_hash_issuances := Some [0x07]\<rparr>) \<and>
   fst (hash_issuances example_collab (clear_cache example_view)) = example_digest [0x00, 0x00] \<and>
   hash_issuances example_collab (snd (hash_issuances example_collab (clear_cache example_view))) =
     (example_digest [0x00, 0x00], snd (hash_issuances example_collab (clear_cache example_view)))"
proof -
  have n: "replicate (num_inputs (clear_cache example_view)) (0x00::byte) = [0x00, 0x00]"
    by (simp add: clear_cache_def example_view_def numeral_2_eq_2)
  have s: "sha256 example_collab = example_digest"
    by (simp add: example_collab_def)
  have c: "cache_hash_issuances (clear_cache example_view) = None"
    by (simp add: clear_cache_def)
  note t = hash_issuances_memoized [of "clear_cache example_view" example_collab, unfolded n s]
  from t [THEN conjunct2, THEN conjunct2, THEN conjunct1, THEN mp, OF c]
  have 1: "hash_issuances example_collab (clear_cache example_view) =
     (example_digest [0x00, 0x00],
      (clear_cache example_view)\<lparr>cache_hash_issuances := Some (example_digest [0x00, 0x00])\<rparr>)" .
  have c2: "cache_hash_issuances
      ((clear_cache example_view)\<lparr>cache_hash_issuances := Some (example_digest [0x00, 0x00])\<rparr>) =
      Some (example_digest [0x00, 0x00])"
    by simp
  from hash_issuances_memoized [of
      "(clear_cache example_view)\<lparr>cache_hash_issuances := Some (example_digest [0x00, 0x00])\<rparr>"
      example_collab, THEN conjunct2, THEN conjunct2, THEN conjunct2, THEN spec, THEN mp,
      OF c2, THEN conjunct1]
  have 2: "hash_issuances example_collab
     ((clear_cache example_view)\<lparr>cache_hash_issuances := Some (example_digest [0x00, 0x00])\<rparr>) =
     (example_digest [0x00, 0x00],
      (clear_cache example_view)\<lparr>cache_hash_issuances := Some (example_digest [0x00, 0x00])\<rparr>)" .
  have c3: "cache_hash_issuances (example_view\<lparr>cache_hash_issuances := Some [0x07]\<rparr>) = Some [0x07]"
    by simp
  from hash_issuances_memoized [of "example_view\<lparr>cache_hash_issuances := Some [0x07]\<rparr>"
      example_collab, THEN conjunct2, THEN conjunct2, THEN conjunct2, THEN spec, THEN mp,
      OF c3, THEN conjunct1]
  have 3: "hash_issuances example_collab (example_view\<lparr>cache_hash_issuances := Some [0x07]\<rparr>) =
     ([0x07], example_view\<lparr>cache_hash_issuances := Some [0x07]\<rparr>)" .
  note u = t [THEN conjunct1, THEN mp, OF disjI1 [OF c]]
  from u [THEN conjunct1]
  have 4: "fst (hash_issuances example_collab (clear_cache example_view)) =
      example_digest [0x00, 0x00]" .
  from u [THEN conjunct2, THEN conjunct1]
  have 5: "hash_issuances example_collab
        (snd (hash_issuances example_collab (clear_cache example_view))) =
      (example_digest [0x00, 0x00], snd (hash_issuances example_collab (clear_cache example_view)))" .
  from 1 2 3 4 5 show ?thesis by (intro conjI)
qed

section \<open>An input read from its scope\<close>

text \<open>
  C7. With no transaction view attached and \<open>i\<close> within bounds, \<open>vin(i)\<close> returns the
  input whose txid is the stored txid reversed, whose vout is the stored field read little
  endian, and whose sequence is the stored field read little endian, or \<open>0xFFFFFFFF\<close>
  when the scope has no sequence field (or an empty one); no error is raised for it.
\<close>

theorem pset_vin_from_scope:
  assumes "tx v = None" and "0 \<le> i" and "i < int (num_inputs v)"
    and "scope_value E (nat i) [0x0e] = Inr (Some stored_txid)"
    and "scope_value E (nat i) [0x0f] = Inr (Some stored_vout)"
    and "scope_value E (nat i) [0x10] = Inr stored_sequence"
  shows "pset_vin E v i =
           Inr (\<lparr>txid = rev stored_txid,
                 vout = from_bytes_le stored_vout,
                 sequence = (case stored_sequence of
                               None \<Rightarrow> 0xFFFFFFFF
                             | Some b \<Rightarrow> if b = [] then 0xFFFFFFFF else from_bytes_le b)\<rparr>, v)"
  using assms by (simp add: pset_vin_def Let_def split: option.splits)

theorem pset_vin_from_scope_witness:
  "pset_vin example_collab example_view 1 =
     Inr (\<lparr>txid = replicate 31 0x22 @ [0x01], vout = 1, sequence = 0xFFFFFFFF\<rparr>, example_view)"
proof -
  have "pset_vin example_collab example_view 1 =
           Inr (\<lparr>txid = rev (0x01 # replicate 31 0x22),
                 vout = from_bytes_le [0x01, 0x00, 0x00, 0x00],
                 sequence = (case None of
                               None \<Rightarrow> 0xFFFFFFFF
                             | Some b \<Rightarrow> if b = [] then 0xFFFFFFFF else from_bytes_le b)\<rparr>, example_view)"
    by (rule pset_vin_from_scope) (simp_all add: example_view_def example_collab_def example_scope_value_def)
  then show ?thesis by simp
qed

section \<open>The signature hashes that are not implemented\<close>

text \<open>
  C8. \<open>sighash_legacy\<close> and \<open>sighash_taproot\<close> raise \<open>NotImplementedError\<close> for all
  arguments; they return no digest, and the error is none of the index and format errors.
\<close>

theorem sighash_legacy_taproot_unsupported:
  "sighash_legacy E v input_index script_pubkey sighash_arg = Inl NotImplementedError \<and>
   sighash_taproot E v input_index script_pubkeys vals sighash_arg' = Inl NotImplementedError \<and>
   (\<forall>d. sighash_legacy E v input_index script_pubkey sighash_arg \<noteq> Inr d) \<and>
   (\<forall>d. sighash_taproot E v input_index script_pubkeys vals sighash_arg' \<noteq> Inr d) \<and>
   (\<forall>msg. NotImplementedError \<noteq> PSBTError msg) \<and>
   NotImplementedError \<noteq> AssertionError \<and>
   (\<forall>msg. NotImplementedError \<noteq> StreamError msg)"
  by (simp add: sighash_legacy_def sighash_taproot_def)


end
